theory Spec2Isabelle
  imports Complex_Main
begin

section \<open>Go primitives used by the backend\<close>

text \<open>
  Conventions of the embedding.
  \<^item> Go's \<open>int\<close> has 64 bits and is modelled by HOL's \<open>int\<close>. Counters and sums
    are bounded by the number of requests made and by their latencies and stay far
    from the limits of a machine word. The pacing interval and the percentage are
    computed from fields of the configuration, which an unvalidated configuration
    can make arbitrarily large: there the wrap-around is written out, \<open>go_mul\<close> is
    the wrapped product and \<open>go_div\<close> the division, which panics on a zero divisor
    and wraps at \<open>-2^63 / -1\<close>. \<open>go_quot\<close> is the quotient truncated towards zero.
  \<^item> \<open>float64\<close> values are the reals that the format represents; an arithmetic
    operation is the exact operation followed by \<open>float64\<close>, the rounding to the
    nearest representable value, ties to the even significand (IEEE 754: 53 bits,
    subnormal numbers from \<open>2^-1074\<close>). Each operation is rounded on its own, as the
    amd64 compiler emits them; \<open>roundedIndexFused\<close> is the index where the product
    and the sum are fused. Overflow to infinity is not modelled: the operands
    are a percentile and a slice length. The conversion \<open>int(f)\<close> discards the
    fraction; Go defines its result for \<open>f\<close> between \<open>-2^63\<close> and \<open>2^63\<close> only, and the
    percentiles from 0 to 100 of a slice keep it there (lemma \<open>index_sum_in_range\<close>).
  \<^item> A run-time panic is a value \<open>Inl p\<close> of a sum type.
  \<^item> Wall-clock values (time stamps, measured durations, requests per second) are
    not part of the model; what the outside world supplies to one request is a
    \<open>RequestEnv\<close>.
\<close>

datatype go_panic = IndexOutOfRange | DivideByZero

definition go_wrap :: "int \<Rightarrow> int" where
  "go_wrap x = (x + 2 ^ 63) mod 2 ^ 64 - 2 ^ 63"

definition go_mul :: "int \<Rightarrow> int \<Rightarrow> int" where
  "go_mul a b = go_wrap (a * b)"

definition go_quot :: "int \<Rightarrow> int \<Rightarrow> int" where
  "go_quot a b = (if (a < 0) = (b < 0) then \<bar>a\<bar> div \<bar>b\<bar> else - (\<bar>a\<bar> div \<bar>b\<bar>))"

definition go_div :: "int \<Rightarrow> int \<Rightarrow> go_panic + int" where
  "go_div a b = (if b = 0 then Inl DivideByZero else Inr (go_wrap (go_quot a b)))"

text \<open>
  \<open>float64\<close>: the exponent of a positive real \<open>x\<close> is the \<open>e\<close> with \<open>2^e \<le> x < 2^(e+1)\<close>,
  found by doubling or halving; the unit in the last place is \<open>2^(e - 52)\<close>, with the
  exponent held at \<open>-1022\<close> for subnormal numbers; a real is rounded to the nearest
  multiple of its unit, a tie to the even multiple.
\<close>

function float64_exponent :: "real \<Rightarrow> int" where
  "float64_exponent x =
     (if x \<le> 0 then 0
      else if x < 1 then float64_exponent (x * 2) - 1
      else if 2 \<le> x then float64_exponent (x / 2) + 1
      else 0)"
  by pat_completeness auto
termination
proof (relation "measure (\<lambda>x. nat \<bar>\<lfloor>log 2 x\<rfloor>\<bar>)")
  show "wf (measure (\<lambda>x. nat \<bar>\<lfloor>log 2 x\<rfloor>\<bar>))" by simp
next
  fix x :: real assume a: "\<not> x \<le> 0" "x < 1"
  have "log 2 (x * 2) = log 2 x + 1" using a by (simp add: log_mult)
  then have f: "\<lfloor>log 2 (x * 2)\<rfloor> = \<lfloor>log 2 x\<rfloor> + 1" by simp
  have "log 2 x < 0" using a by simp
  then have "\<lfloor>log 2 x\<rfloor> < 0" by (simp add: floor_less_iff)
  then show "(x * 2, x) \<in> measure (\<lambda>x. nat \<bar>\<lfloor>log 2 x\<rfloor>\<bar>)"
    unfolding in_measure f by linarith
next
  fix x :: real assume a: "\<not> x \<le> 0" "\<not> x < 1" "2 \<le> x"
  have "log 2 (x / 2) = log 2 x - 1" using a by (simp add: log_divide)
  then have f: "\<lfloor>log 2 (x / 2)\<rfloor> = \<lfloor>log 2 x\<rfloor> - 1" by simp
  have "1 \<le> log 2 x" using a by (simp add: le_log_iff)
  then have "1 \<le> \<lfloor>log 2 x\<rfloor>" by (simp add: le_floor_iff)
  then show "(x / 2, x) \<in> measure (\<lambda>x. nat \<bar>\<lfloor>log 2 x\<rfloor>\<bar>)"
    unfolding in_measure f by linarith
qed

definition round_half_even :: "real \<Rightarrow> int" where
  "round_half_even x =
     (let f = \<lfloor>x\<rfloor>; r = x - real_of_int f
      in if r < 1/2 then f else if 1/2 < r then f + 1 else if even f then f else f + 1)"

definition float64_ulp :: "real \<Rightarrow> real" where
  "float64_ulp x = 2 powi (max (float64_exponent \<bar>x\<bar>) (- 1022) - 52)"

definition float64 :: "real \<Rightarrow> real" where
  "float64 x =
     (if x = 0 then 0
      else sgn x * real_of_int (round_half_even (\<bar>x\<bar> / float64_ulp x)) * float64_ulp x)"

text \<open>The conversion \<open>int(f)\<close> of a \<open>float64\<close>: the fraction is discarded.\<close>

definition go_int_of_float :: "real \<Rightarrow> int" where
  "go_int_of_float x = (if 0 \<le> x then \<lfloor>x\<rfloor> else \<lceil>x\<rceil>)"

text \<open>Indexing a slice: out of range is a panic, below zero as well as above.\<close>

definition go_index :: "'a list \<Rightarrow> int \<Rightarrow> go_panic + 'a" where
  "go_index xs i =
     (if 0 \<le> i \<and> i < int (length xs) then Inr (xs ! nat i) else Inl IndexOutOfRange)"

text \<open>\<open>strings.Contains\<close>, \<open>strings.TrimSuffix\<close> and \<open>strings.Join\<close>.\<close>

fun strings_Contains :: "string \<Rightarrow> string \<Rightarrow> bool" where
  "strings_Contains [] substr = (substr = [])"
| "strings_Contains (c # cs) substr =
     (take (length substr) (c # cs) = substr \<or> strings_Contains cs substr)"

definition strings_TrimSuffix :: "string \<Rightarrow> string \<Rightarrow> string" where
  "strings_TrimSuffix s suffix =
     (if length suffix \<le> length s \<and> drop (length s - length suffix) s = suffix
      then take (length s - length suffix) s else s)"

fun strings_Join :: "string list \<Rightarrow> string \<Rightarrow> string" where
  "strings_Join [] sep = []"
| "strings_Join [v] sep = v"
| "strings_Join (v # w # vs) sep = v @ sep @ strings_Join (w # vs) sep"

text \<open>
  \<open>rand.Intn(n)\<close> returns an index below \<open>n\<close>; the random source is a natural number
  supplied by the environment.
\<close>

definition rand_Intn :: "nat \<Rightarrow> nat \<Rightarrow> nat" where
  "rand_Intn rnd n = rnd mod n"

section \<open>Data model (models.go)\<close>

record TestConfig =
  TargetURL :: string
  TotalRequests :: int
  Duration :: int
  TrafficType :: string
  ErrorMode :: bool
  UserAgentType :: string
  CustomUserAgent :: string
  TestMode :: string
  HTTPMethod :: string
  CustomHeaders :: "string \<rightharpoonup> string"
  RequestBody :: string

record RequestResult =
  ID :: int
  Status :: int
  StatusText :: string
  URL :: string
  Method :: string
  RequestHeaders :: "string \<rightharpoonup> string"
  ResponseHeaders :: "string \<rightharpoonup> string"
  SentBody :: string
  ResponseBody :: string
  ResponseTime :: int
  Error :: string
  WasBlocked :: bool
  AttackInfo :: string

record TestResult =
  TestID :: string
  ResultTotal :: int
  SuccessCount :: int
  ErrorCount :: int
  BlockedCount :: int
  AvgResponse :: int
  MinResponse :: int
  MaxResponse :: int
  P50Response :: int
  P95Response :: int
  P99Response :: int
  Requests :: "RequestResult list"
  RateLimitHit :: bool
  RateLimitAt :: int

record TestStats =
  StatsSuccessCount :: int
  StatsErrorCount :: int
  StatsBlockedCount :: int
  StatsAvgResponse :: int

record ProgressUpdate =
  Type :: string
  UpdateTestID :: string
  Completed :: int
  Total :: int
  Percentage :: int
  NewRequests :: "RequestResult list"
  CurrentStats :: "TestStats option"
  FinalResult :: "TestResult option"
  UpdateError :: string

text \<open>
  Field names are those of the Go structs. Where two structs share a field name the
  later record carries a prefix: \<open>SentBody\<close> is \<open>RequestResult.RequestBody\<close>,
  \<open>ResultTotal\<close> is \<open>TestResult.TotalRequests\<close>, the \<open>Stats\<close> fields are
  those of \<open>TestStats\<close>, \<open>UpdateTestID\<close> and \<open>UpdateError\<close> are
  \<open>ProgressUpdate.TestID\<close> and \<open>ProgressUpdate.Error\<close>.
\<close>

section \<open>Percentiles (percentiles.go)\<close>

text \<open>
  The index that \<open>calculatePercentile\<close> reads: \<open>(percentile / 100.0) * float64(n - 1)\<close>,
  plus one half, truncated, and lowered to \<open>n - 1\<close> when it is \<open>n\<close> or more. The
  quotient, the conversion of \<open>n - 1\<close>, the product and the sum are \<open>float64\<close>
  operations. There is no test against zero.
\<close>

definition roundedIndex :: "nat \<Rightarrow> real \<Rightarrow> int" where
  "roundedIndex n percentile =
     (let index = float64 (float64 (percentile / 100) * float64 (real_of_int (int n - 1)));
          rounded = go_int_of_float (float64 (index + 0.5))
      in if rounded \<ge> int n then int n - 1 else rounded)"

text \<open>
  The language lets the compiler fuse the product and the sum into one operation,
  which is then rounded once; the arm64 compiler does. The index of such a build:
\<close>

definition roundedIndexFused :: "nat \<Rightarrow> real \<Rightarrow> int" where
  "roundedIndexFused n percentile =
     (let rounded = go_int_of_float
            (float64 (float64 (percentile / 100) * float64 (real_of_int (int n - 1)) + 0.5))
      in if rounded \<ge> int n then int n - 1 else rounded)"

definition calculatePercentile :: "int list \<Rightarrow> real \<Rightarrow> go_panic + int" where
  "calculatePercentile sortedValues percentile =
     (if length sortedValues = 0 then Inr 0
      else go_index sortedValues (roundedIndex (length sortedValues) percentile))"

definition sortInts :: "int list \<Rightarrow> int list" where
  "sortInts values = sort values"

definition calculateResponseTimePercentiles :: "int list \<Rightarrow> go_panic + (int \<times> int \<times> int)" where
  "calculateResponseTimePercentiles responseTimes =
     (if length responseTimes = 0 then Inr (0, 0, 0)
      else let sorted = sortInts responseTimes in
        case calculatePercentile sorted 50 of Inl e \<Rightarrow> Inl e | Inr p50 \<Rightarrow>
        case calculatePercentile sorted 95 of Inl e \<Rightarrow> Inl e | Inr p95 \<Rightarrow>
        case calculatePercentile sorted 99 of Inl e \<Rightarrow> Inl e | Inr p99 \<Rightarrow>
          Inr (p50, p95, p99))"


section \<open>Payloads and attack requests (attacks.go)\<close>

record AttackPayloads =
  SQLInjection :: "string list"
  XSS :: "string list"
  PathTraversal :: "string list"
  CommandInjection :: "string list"
  ScannerUserAgents :: "string list"
  LegitimateUserAgents :: "string list"

text \<open>What the outside world supplies to one call of \<open>sendRequest\<close>.\<close>

record HTTPResponse =
  StatusCode :: int
  StatusCodeText :: string \<comment> \<open>\<open>http.StatusText(resp.StatusCode)\<close>\<close>
  Header :: "string \<rightharpoonup> string list"
  Body :: "string + string" \<comment> \<open>\<open>io.ReadAll\<close>: \<open>Inl\<close> the error text, \<open>Inr\<close> the bytes\<close>

record RequestEnv =
  rndAttackType :: nat \<comment> \<open>random source of \<open>GetRandomAttackType\<close>\<close>
  rndPayload :: nat \<comment> \<open>random source of \<open>GetRandomPayload\<close>\<close>
  rndAttackAgent :: nat \<comment> \<open>random source of the user agent in \<open>BuildAttackRequest\<close>\<close>
  rndUserAgent :: nat \<comment> \<open>random source of \<open>SelectUserAgent\<close>\<close>
  randomPath :: string \<comment> \<open>the \<open>/nonexistent-path-...\<close> string of \<open>Generate404URL\<close>\<close>
  newRequestError :: "string option" \<comment> \<open>the error of \<open>http.NewRequest\<close>, if any\<close>
  transport :: "string + HTTPResponse" \<comment> \<open>\<open>client.Do\<close>: the error text or the response\<close>
  elapsedMs :: int \<comment> \<open>\<open>time.Since(startTime).Milliseconds()\<close>\<close>

definition GetRandomPayload :: "AttackPayloads \<Rightarrow> nat \<Rightarrow> string \<Rightarrow> string" where
  "GetRandomPayload pools rnd attackType =
     (if attackType \<notin> {''sql'', ''xss'', ''traversal'', ''command''} then ''''
      else let payloads =
             (if attackType = ''sql'' then SQLInjection pools
              else if attackType = ''xss'' then XSS pools
              else if attackType = ''traversal'' then PathTraversal pools
              else CommandInjection pools)
           in if length payloads = 0 then ''''
              else payloads ! rand_Intn rnd (length payloads))"

definition GetRandomUserAgent :: "AttackPayloads \<Rightarrow> nat \<Rightarrow> string" where
  "GetRandomUserAgent pools rnd =
     (if length (ScannerUserAgents pools) = 0
      then (let fallbackAgents = [''sqlmap/1.0'', ''Nikto/2.1.6'', ''nmap-scripting-engine'']
            in fallbackAgents ! rand_Intn rnd (length fallbackAgents))
      else ScannerUserAgents pools ! rand_Intn rnd (length (ScannerUserAgents pools)))"

definition GetLegitimateUserAgent :: "AttackPayloads \<Rightarrow> nat \<Rightarrow> string" where
  "GetLegitimateUserAgent pools rnd =
     (if length (LegitimateUserAgents pools) = 0
      then ''Mozilla/5.0 (Windows NT 10.0; Win64; x64) AppleWebKit/537.36 (KHTML, like Gecko) Chrome/131.0.0.0 Safari/537.36''
      else LegitimateUserAgents pools ! rand_Intn rnd (length (LegitimateUserAgents pools)))"

definition SelectUserAgent :: "TestConfig \<Rightarrow> AttackPayloads \<Rightarrow> nat \<Rightarrow> string" where
  "SelectUserAgent config pools rnd =
     (if CustomUserAgent config \<noteq> '''' then CustomUserAgent config
      else if UserAgentType config = ''scanner'' then GetRandomUserAgent pools rnd
      else if UserAgentType config = ''legitimate'' then GetLegitimateUserAgent pools rnd
      else if TrafficType config = ''attack'' then GetRandomUserAgent pools rnd
      else GetLegitimateUserAgent pools rnd)"

definition GetRandomAttackType :: "nat \<Rightarrow> string" where
  "GetRandomAttackType rnd =
     (let attackTypes = [''sql'', ''xss'', ''traversal'', ''command'']
      in attackTypes ! rand_Intn rnd (length attackTypes))"

text \<open>
  \<open>BuildAttackRequest\<close> returns the URL, the body, the headers and the attack
  description. With no payload available it returns the request unchanged.
\<close>

definition BuildAttackRequest ::
  "TestConfig \<Rightarrow> AttackPayloads \<Rightarrow> RequestEnv \<Rightarrow> string \<times> string \<times> (string \<rightharpoonup> string) \<times> string" where
  \<open>BuildAttackRequest config pools env =
     (let url = TargetURL config;
          body = RequestBody config;
          headers = CustomHeaders config;
          attackType = GetRandomAttackType (rndAttackType env);
          payload = GetRandomPayload pools (rndPayload env) attackType
      in if payload = '''' then (url, body, headers, ''No payloads available'')
         else
           let (url, body, attackInfo) =
             (if HTTPMethod config = ''GET'' \<or> HTTPMethod config = ''''
              then (let separator = (if strings_Contains url ''?'' then ''&'' else ''?'')
                    in (url @ separator @ ''id='' @ payload @ ''&search='' @ payload,
                        body, attackType @ '' (query parameter)''))
              else (let body =
                      (if body = ''''
                       then ''{"id": "'' @ payload @ ''", "search": "'' @ payload @ ''"}''
                       else strings_TrimSuffix body ''}'' @ '', "attack": "'' @ payload @ ''"}'')
                    in (url, body, attackType @ '' (request body)'')))
           in (url, body,
               headers(''User-Agent'' \<mapsto> GetRandomUserAgent pools (rndAttackAgent env)),
               attackInfo))\<close>

definition Generate404URL :: "string \<Rightarrow> string \<Rightarrow> string" where
  "Generate404URL baseURL path = strings_TrimSuffix baseURL ''/'' @ path"

section \<open>Sending one request (tester.go)\<close>

text \<open>
  \<open>sendRequest\<close> never panics: a request that cannot be built and a request that the
  transport fails are outcomes with status 0 and an error text. The blocked flag is
  set in one place only, after a response has arrived. The function is written in
  three parts, in the order of the source: \<open>prepareRequest\<close> is its text up to the call
  of \<open>http.NewRequest\<close> (the outcome is created, the URL, the body and the headers are
  resolved), \<open>recordResponse\<close> is its text after a response has arrived, and
  \<open>sendRequest\<close> joins them with the two error returns in between.
\<close>

definition truncateBody :: "string \<Rightarrow> string" where
  "truncateBody bodyString =
     (if length bodyString > 500 then take 500 bodyString @ ''... (truncated)''
      else bodyString)"

definition prepareRequest ::
  "int \<Rightarrow> TestConfig \<Rightarrow> AttackPayloads \<Rightarrow> RequestEnv
     \<Rightarrow> string \<times> string \<times> (string \<rightharpoonup> string) \<times> RequestResult" where
  "prepareRequest reqID config pools env =
     (let result = \<lparr>ID = reqID, Status = 0, StatusText = '''', URL = TargetURL config,
                     Method = HTTPMethod config, RequestHeaders = Map.empty,
                     ResponseHeaders = Map.empty, SentBody = '''', ResponseBody = '''',
                     ResponseTime = 0, Error = '''', WasBlocked = False, AttackInfo = ''''\<rparr>;
          result = (if Method result = '''' then result\<lparr>Method := ''GET''\<rparr> else result);
          url = TargetURL config;
          body = RequestBody config;
          headers = CustomHeaders config;
          (url, result) =
            (if TrafficType config = ''normal'' \<and> ErrorMode config
             then (let url = Generate404URL url (randomPath env) in (url, result\<lparr>URL := url\<rparr>))
             else (url, result));
          (url, body, headers, result) =
            (if TrafficType config = ''attack''
             then (case BuildAttackRequest config pools env of
                     (url, body, headers, attackInfo) \<Rightarrow>
                       (url, body, headers,
                        result\<lparr>AttackInfo := attackInfo, URL := url, SentBody := body\<rparr>))
             else (url, body, headers, result));
          result = (if body \<noteq> '''' \<and> SentBody result = ''''
                    then result\<lparr>SentBody := body\<rparr> else result)
      in (url, body, headers, result))"

definition recordResponse :: "RequestResult \<Rightarrow> HTTPResponse \<Rightarrow> RequestResult" where
  "recordResponse result resp =
     (let result = result\<lparr>Status := StatusCode resp, StatusText := StatusCodeText resp\<rparr>;
          result = (if StatusCode resp = 429 \<or> StatusCode resp = 406 \<or> StatusCode resp = 403
                    then result\<lparr>WasBlocked := True\<rparr> else result);
          result = result\<lparr>ResponseHeaders :=
                     (\<lambda>key. map_option (\<lambda>values. strings_Join values '', '')
                                        (Header resp key))\<rparr>
      in case Body resp of
           Inl err \<Rightarrow> result\<lparr>Error := ''Failed to read response body: '' @ err\<rparr>
         | Inr bodyString \<Rightarrow> result\<lparr>ResponseBody := truncateBody bodyString\<rparr>)"

definition sendRequest ::
  "int \<Rightarrow> TestConfig \<Rightarrow> AttackPayloads \<Rightarrow> RequestEnv \<Rightarrow> RequestResult" where
  "sendRequest reqID config pools env =
     (case prepareRequest reqID config pools env of
        (url, body, headers, result) \<Rightarrow>
          (case newRequestError env of
             Some err \<Rightarrow> result\<lparr>Error := ''Failed to create request: '' @ err, Status := 0\<rparr>
           | None \<Rightarrow>
              (let result = result\<lparr>RequestHeaders := headers\<rparr>;
                   result = (if body \<noteq> ''''
                             then result\<lparr>RequestHeaders :=
                                    (RequestHeaders result)(''Content-Type'' \<mapsto> ''application/json'')\<rparr>
                             else result);
                   userAgent = SelectUserAgent config pools (rndUserAgent env);
                   result = result\<lparr>RequestHeaders :=
                              (RequestHeaders result)(''User-Agent'' \<mapsto> userAgent)\<rparr>;
                   result = result\<lparr>ResponseTime := elapsedMs env\<rparr>
               in case transport env of
                    Inl err \<Rightarrow> result\<lparr>Error := ''Request failed: '' @ err, Status := 0\<rparr>
                  | Inr resp \<Rightarrow> recordResponse result resp)))"

section \<open>Statistics (tester.go)\<close>

text \<open>The local variables of the loop in \<open>calculateStatistics\<close>.\<close>

record StatisticsVars =
  successCount :: int
  errorCount :: int
  blockedCount :: int
  totalResponseTime :: int
  minResponse :: int
  maxResponse :: int
  responseTimes :: "int list"

definition statisticsStep :: "RequestResult \<Rightarrow> StatisticsVars \<Rightarrow> StatisticsVars" where
  "statisticsStep req v =
     (let v = (if Status req \<ge> 200 \<and> Status req < 300
               then v\<lparr>successCount := successCount v + 1\<rparr> else v);
          v = (if Status req \<ge> 400 \<or> Error req \<noteq> ''''
               then v\<lparr>errorCount := errorCount v + 1\<rparr> else v);
          v = (if WasBlocked req then v\<lparr>blockedCount := blockedCount v + 1\<rparr> else v);
          v = v\<lparr>totalResponseTime := totalResponseTime v + ResponseTime req,
                 responseTimes := responseTimes v @ [ResponseTime req]\<rparr>;
          v = (if ResponseTime req < minResponse v \<and> ResponseTime req > 0
               then v\<lparr>minResponse := ResponseTime req\<rparr> else v);
          v = (if ResponseTime req > maxResponse v
               then v\<lparr>maxResponse := ResponseTime req\<rparr> else v)
      in v)"

fun statisticsLoop :: "RequestResult list \<Rightarrow> StatisticsVars \<Rightarrow> StatisticsVars" where
  "statisticsLoop [] v = v"
| "statisticsLoop (req # reqs) v = statisticsLoop reqs (statisticsStep req v)"

definition calculateStatistics :: "TestResult \<Rightarrow> go_panic + TestResult" where
  "calculateStatistics result =
     (let v = statisticsLoop (Requests result)
                \<lparr>successCount = 0, errorCount = 0, blockedCount = 0, totalResponseTime = 0,
                 minResponse = 999999, maxResponse = 0, responseTimes = []\<rparr>;
          result = (if ResultTotal result > 0
                    then result\<lparr>AvgResponse := go_quot (totalResponseTime v) (ResultTotal result)\<rparr>
                    else result);
          v = (if minResponse v = 999999 then v\<lparr>minResponse := 0\<rparr> else v);
          result = result\<lparr>SuccessCount := successCount v, ErrorCount := errorCount v,
                         BlockedCount := blockedCount v, MinResponse := minResponse v,
                         MaxResponse := maxResponse v\<rparr>
      in case calculateResponseTimePercentiles (responseTimes v) of
           Inl e \<Rightarrow> Inl e
         | Inr (p50, p95, p99) \<Rightarrow>
             Inr (result\<lparr>P50Response := p50, P95Response := p95, P99Response := p99\<rparr>))"

definition calculateInterval :: "TestConfig \<Rightarrow> go_panic + int" where
  "calculateInterval config =
     (if TestMode config = ''burst''
      then (let burstDuration = go_quot (Duration config) 2
            in go_div (go_mul burstDuration 1000) (TotalRequests config))
      else go_div (go_mul (Duration config) 1000) (TotalRequests config))"

definition incrementalStep :: "RequestResult \<Rightarrow> TestStats \<times> int \<Rightarrow> TestStats \<times> int" where
  "incrementalStep req = (\<lambda>(stats, sumTime).
     (let stats = (if Status req \<ge> 200 \<and> Status req < 300
                   then stats\<lparr>StatsSuccessCount := StatsSuccessCount stats + 1\<rparr> else stats);
          stats = (if Status req \<ge> 400 \<or> Error req \<noteq> ''''
                   then stats\<lparr>StatsErrorCount := StatsErrorCount stats + 1\<rparr> else stats);
          stats = (if WasBlocked req
                   then stats\<lparr>StatsBlockedCount := StatsBlockedCount stats + 1\<rparr> else stats)
      in (stats, sumTime + ResponseTime req)))"

fun incrementalLoop :: "RequestResult list \<Rightarrow> TestStats \<times> int \<Rightarrow> TestStats \<times> int" where
  "incrementalLoop [] acc = acc"
| "incrementalLoop (req # reqs) acc = incrementalLoop reqs (incrementalStep req acc)"

definition calculateIncrementalStats :: "RequestResult list \<Rightarrow> TestStats" where
  "calculateIncrementalStats requests =
     (case incrementalLoop requests
             (\<lparr>StatsSuccessCount = 0, StatsErrorCount = 0, StatsBlockedCount = 0,
               StatsAvgResponse = 0\<rparr>, 0) of
        (stats, sumTime) \<Rightarrow>
          (if length requests > 0
           then stats\<lparr>StatsAvgResponse := go_quot sumTime (int (length requests))\<rparr>
           else stats))"

definition emptyResult :: "string \<Rightarrow> TestResult" where
  "emptyResult testID =
     \<lparr>TestID = testID, ResultTotal = 0, SuccessCount = 0, ErrorCount = 0, BlockedCount = 0,
      AvgResponse = 0, MinResponse = 0, MaxResponse = 0, P50Response = 0, P95Response = 0,
      P99Response = 0, Requests = [], RateLimitHit = False, RateLimitAt = 0\<rparr>"

definition buildFinalResult :: "string \<Rightarrow> RequestResult list \<Rightarrow> go_panic + TestResult" where
  "buildFinalResult testID requests =
     (let result = (emptyResult testID)\<lparr>Requests := requests\<rparr>;
          result = result\<lparr>ResultTotal := int (length requests)\<rparr>
      in calculateStatistics result)"

section \<open>The synchronous test (tester.go, RunTest)\<close>

text \<open>
  The loop \<open>for i := 1; i <= config.TotalRequests; i++\<close>. The world is a function from
  the request number to what the network and the random sources give that request.
  The sleeps between requests have no effect on the result and are left out.
\<close>

function runTestLoop ::
  "TestConfig \<Rightarrow> AttackPayloads \<Rightarrow> (int \<Rightarrow> RequestEnv) \<Rightarrow> int \<Rightarrow> TestResult \<Rightarrow> TestResult" where
  "runTestLoop config pools world i result =
     (if i \<le> TotalRequests config
      then (let requestResult = sendRequest i config pools (world i);
                result = result\<lparr>Requests := Requests result @ [requestResult]\<rparr>;
                result = (if WasBlocked requestResult \<and> \<not> RateLimitHit result
                          then result\<lparr>RateLimitHit := True, RateLimitAt := i\<rparr>
                          else result)
            in runTestLoop config pools world (i + 1) result)
      else result)"
  by pat_completeness auto
termination
  by (relation "measure (\<lambda>(config, pools, world, i, result). nat (TotalRequests config + 1 - i))")
     auto

text \<open>
  \<open>RunTest\<close> computes the interval first (a division by the number of requests, which
  panics when that is 0), runs the loop, sets the total to the number of outcomes and
  computes the statistics.
\<close>

definition RunTest ::
  "TestConfig \<Rightarrow> AttackPayloads \<Rightarrow> (int \<Rightarrow> RequestEnv) \<Rightarrow> string \<Rightarrow> go_panic + TestResult" where
  "RunTest config pools world testID =
     (case (if TestMode config = ''burst''
            then (let burstDuration = go_quot (Duration config) 2
                  in go_div (go_mul burstDuration 1000) (TotalRequests config))
            else go_div (go_mul (Duration config) 1000) (TotalRequests config)) of
        Inl e \<Rightarrow> Inl e
      | Inr intervalMs \<Rightarrow>
         (let result = runTestLoop config pools world 1 (emptyResult testID);
              result = result\<lparr>ResultTotal := int (length (Requests result))\<rparr>
          in calculateStatistics result))"

section \<open>The streaming test (tester.go, RunTestStreaming)\<close>

text \<open>
  Two goroutines and the context. \<open>sendRequestsConcurrently\<close> (the producer) is at the
  head of its loop, at the \<open>select\<close> that enqueues an outcome, at the \<open>select\<close> that
  waits for the interval, or has returned, which closes \<open>resultsChan\<close>. The collecting
  goroutine of \<open>RunTestStreaming\<close> ranges over \<open>resultsChan\<close> until it returns.
  \<open>progressChan\<close> is the sequence of updates written so far, oldest first; the HTTP
  handler drains it. The interleaving is a list of actions: the context is cancelled,
  the producer runs to its next channel operation, or the collector handles the next
  outcome.
\<close>

datatype producer_state =
    ProducerLoop int
  | ProducerEnqueue int RequestResult
  | ProducerWait int
  | ProducerReturned

datatype collector_state = Collecting | CollectorReturned | CollectorPanicked go_panic

record StreamState =
  ctxDone :: bool
  producer :: producer_state
  resultsChan :: "RequestResult list"
  resultsClosed :: bool
  allRequests :: "RequestResult list"
  batchRequests :: "RequestResult list"
  completedCount :: int
  collector :: collector_state
  progressChan :: "ProgressUpdate list"

datatype action =
    Cancel \<comment> \<open>\<open>session.CancelFunc()\<close>, or the client went away\<close>
  | Producer bool \<comment> \<open>the flag: a \<open>select\<close> with both cases ready takes \<open>ctx.Done()\<close>\<close>
  | Collector bool \<comment> \<open>the flag: one second has passed since the last batch\<close>

definition blankUpdate :: ProgressUpdate where
  "blankUpdate = \<lparr>Type = '''', UpdateTestID = '''', Completed = 0, Total = 0, Percentage = 0,
                  NewRequests = [], CurrentStats = None, FinalResult = None, UpdateError = ''''\<rparr>"

text \<open>The capacity of \<open>resultsChan\<close>: \<open>make(chan RequestResult, 100)\<close>.\<close>

definition resultsCap :: nat where
  "resultsCap = 100"

definition producerReturn :: "StreamState \<Rightarrow> StreamState" where
  "producerReturn s = s\<lparr>producer := ProducerReturned, resultsClosed := True\<rparr>"

definition producerStep ::
  "TestConfig \<Rightarrow> AttackPayloads \<Rightarrow> (int \<Rightarrow> RequestEnv) \<Rightarrow> bool \<Rightarrow> StreamState \<Rightarrow> StreamState" where
  "producerStep config pools world preferDone s =
     (case producer s of
        ProducerLoop i \<Rightarrow>
          (if i \<le> TotalRequests config
           then (if ctxDone s then producerReturn s
                 else s\<lparr>producer := ProducerEnqueue i (sendRequest i config pools (world i))\<rparr>)
           else producerReturn s)
      | ProducerEnqueue i result \<Rightarrow>
          (let canSend = length (resultsChan s) < resultsCap
           in if ctxDone s \<and> (preferDone \<or> \<not> canSend) then producerReturn s
              else if canSend
              then s\<lparr>resultsChan := resultsChan s @ [result],
                     producer := (if i < TotalRequests config then ProducerWait i
                                  else ProducerLoop (i + 1))\<rparr>
              else s)
      | ProducerWait i \<Rightarrow>
          (if ctxDone s \<and> preferDone then producerReturn s
           else s\<lparr>producer := ProducerLoop (i + 1)\<rparr>)
      | ProducerReturned \<Rightarrow> s)"

text \<open>The code after the \<open>range\<close> loop: the final result and the \<open>complete\<close> update.\<close>

definition completeUpdate :: "TestConfig \<Rightarrow> string \<Rightarrow> TestResult \<Rightarrow> ProgressUpdate" where
  "completeUpdate config testID finalResult =
     blankUpdate\<lparr>Type := ''complete'', UpdateTestID := testID,
                 Completed := TotalRequests config, Total := TotalRequests config,
                 Percentage := 100, FinalResult := Some finalResult\<rparr>"

definition collectorFinish :: "TestConfig \<Rightarrow> string \<Rightarrow> StreamState \<Rightarrow> StreamState" where
  "collectorFinish config testID s =
     (case buildFinalResult testID (allRequests s) of
        Inl e \<Rightarrow> s\<lparr>collector := CollectorPanicked e\<rparr>
      | Inr finalResult \<Rightarrow>
          s\<lparr>progressChan := progressChan s @ [completeUpdate config testID finalResult],
            collector := CollectorReturned\<rparr>)"

definition collectorBatch :: "TestConfig \<Rightarrow> string \<Rightarrow> StreamState \<Rightarrow> go_panic + StreamState" where
  "collectorBatch config testID s =
     (let stats = calculateIncrementalStats (allRequests s)
      in case go_div (go_mul (completedCount s) 100) (TotalRequests config) of
           Inl e \<Rightarrow> Inl e
         | Inr percentage \<Rightarrow>
             Inr (s\<lparr>progressChan := progressChan s @
                      [blankUpdate\<lparr>Type := ''progress'', UpdateTestID := testID,
                                   Completed := completedCount s,
                                   Total := TotalRequests config, Percentage := percentage,
                                   NewRequests := batchRequests s,
                                   CurrentStats := Some stats\<rparr>],
                    batchRequests := []\<rparr>))"

definition collectorStep :: "TestConfig \<Rightarrow> string \<Rightarrow> bool \<Rightarrow> StreamState \<Rightarrow> StreamState" where
  "collectorStep config testID secondPassed s =
     (if collector s \<noteq> Collecting then s
      else case resultsChan s of
        [] \<Rightarrow> (if resultsClosed s then collectorFinish config testID s else s)
      | result # rest \<Rightarrow>
         (let s = s\<lparr>resultsChan := rest, completedCount := completedCount s + 1,
                    allRequests := allRequests s @ [result],
                    batchRequests := batchRequests s @ [result]\<rparr>
          in if ctxDone s
             then s\<lparr>progressChan := progressChan s @
                       [blankUpdate\<lparr>Type := ''cancelled'', UpdateTestID := testID,
                                    Completed := completedCount s,
                                    Total := TotalRequests config\<rparr>],
                     collector := CollectorReturned\<rparr>
             else (let isComplete = completedCount s \<ge> TotalRequests config
                   in case (if secondPassed \<or> isComplete then collectorBatch config testID s
                            else Inr s) of
                        Inl e \<Rightarrow> s\<lparr>collector := CollectorPanicked e\<rparr>
                      | Inr s \<Rightarrow> (if isComplete then collectorFinish config testID s else s))))"

text \<open>
  \<open>RunTestStreaming\<close> writes the first update and starts the goroutines; the interval
  is computed before the producer is started.
\<close>

definition RunTestStreaming :: "TestConfig \<Rightarrow> string \<Rightarrow> StreamState" where
  "RunTestStreaming config testID =
     (let s = \<lparr>ctxDone = False, producer = ProducerReturned, resultsChan = [],
                resultsClosed = False, allRequests = [], batchRequests = [],
                completedCount = 0, collector = Collecting,
                progressChan = [blankUpdate\<lparr>Type := ''progress'', UpdateTestID := testID,
                                            Completed := 0, Total := TotalRequests config,
                                            Percentage := 0\<rparr>]\<rparr>
      in case calculateInterval config of
           Inl e \<Rightarrow> s\<lparr>collector := CollectorPanicked e\<rparr>
         | Inr intervalMs \<Rightarrow> s\<lparr>producer := ProducerLoop 1\<rparr>)"

definition step ::
  "TestConfig \<Rightarrow> AttackPayloads \<Rightarrow> (int \<Rightarrow> RequestEnv) \<Rightarrow> string \<Rightarrow> action \<Rightarrow> StreamState \<Rightarrow> StreamState" where
  "step config pools world testID a s =
     (case a of
        Cancel \<Rightarrow> s\<lparr>ctxDone := True\<rparr>
      | Producer preferDone \<Rightarrow> producerStep config pools world preferDone s
      | Collector secondPassed \<Rightarrow> collectorStep config testID secondPassed s)"

fun runSchedule ::
  "TestConfig \<Rightarrow> AttackPayloads \<Rightarrow> (int \<Rightarrow> RequestEnv) \<Rightarrow> string \<Rightarrow> action list \<Rightarrow> StreamState \<Rightarrow> StreamState" where
  "runSchedule config pools world testID [] s = s"
| "runSchedule config pools world testID (a # as) s =
     runSchedule config pools world testID as (step config pools world testID a s)"

text \<open>The session from its start: \<open>RunTestStreaming\<close> followed by a schedule.\<close>

definition streamingSession ::
  "TestConfig \<Rightarrow> AttackPayloads \<Rightarrow> (int \<Rightarrow> RequestEnv) \<Rightarrow> string \<Rightarrow> action list \<Rightarrow> StreamState" where
  "streamingSession config pools world testID schedule =
     runSchedule config pools world testID schedule (RunTestStreaming config testID)"

section \<open>Starting a streaming session (handlers.go, handleStartTestStream)\<close>

text \<open>
  The handler up to the point where the session exists. Its inputs are the HTTP method,
  the result of decoding the body (\<open>Inl\<close> the decoder's error) and whether the response
  writer can flush. It answers with an HTTP error, answers the preflight, or starts
  \<open>RunTestStreaming\<close> with the configuration after the defaults and registers the
  session. Every \<open>http.Error\<close> is followed by \<open>return\<close>, so an error outcome means that
  no session was created and no request was sent.
\<close>

datatype handler_outcome =
    HttpError int string
  | PreflightOK
  | SessionStarted TestConfig

definition applyDefaults :: "TestConfig \<Rightarrow> TestConfig" where
  "applyDefaults config =
     (let config = (if TrafficType config = '''' then config\<lparr>TrafficType := ''normal''\<rparr>
                    else config);
          config = (if TestMode config = '''' then config\<lparr>TestMode := ''baseline''\<rparr>
                    else config);
          config = (if HTTPMethod config = '''' then config\<lparr>HTTPMethod := ''GET''\<rparr>
                    else config)
      in config)"

definition handleStartTestStream :: "string \<Rightarrow> string + TestConfig \<Rightarrow> bool \<Rightarrow> handler_outcome" where
  "handleStartTestStream httpMethod decoded canFlush =
     (if httpMethod \<noteq> ''POST'' then HttpError 405 ''Method not allowed. Use POST.''
      else if httpMethod = ''OPTIONS'' then PreflightOK
      else case decoded of
        Inl err \<Rightarrow> HttpError 400 (''Invalid JSON: '' @ err)
      | Inr config \<Rightarrow>
         (if TargetURL config = '''' then HttpError 400 ''target_url is required''
          else if TotalRequests config \<le> 0
          then HttpError 400 ''total_requests must be greater than 0''
          else if TotalRequests config > 10000
          then HttpError 400 ''total_requests cannot exceed 10000 (safety limit)''
          else if Duration config \<le> 0
          then HttpError 400 ''duration must be greater than 0''
          else if Duration config > 3600
          then HttpError 400 ''duration cannot exceed 3600 seconds (1 hour)''
          else if TrafficType config \<noteq> '''' \<and> TrafficType config \<noteq> ''normal''
                  \<and> TrafficType config \<noteq> ''attack''
          then HttpError 400 (''traffic_type must be 'normal' or 'attack'' @ [CHR 0x27])
          else if TestMode config \<noteq> '''' \<and> TestMode config \<noteq> ''baseline''
                  \<and> TestMode config \<noteq> ''burst''
          then HttpError 400 (''test_mode must be 'baseline' or 'burst'' @ [CHR 0x27])
          else if UserAgentType config \<noteq> '''' \<and> UserAgentType config \<noteq> ''legitimate''
                  \<and> UserAgentType config \<noteq> ''scanner''
          then HttpError 400 (''user_agent_type must be 'legitimate' or 'scanner'' @ [CHR 0x27])
          else (let config = applyDefaults config
                in if \<not> canFlush then HttpError 500 ''Streaming unsupported''
                   else SessionStarted config)))"

text \<open>
  The validation contract as the specification words it: the configuration is
  acceptable when the URL is not empty, the counts are in range and each of the three
  selectors is empty or one of its two names.
\<close>

definition config_acceptable :: "TestConfig \<Rightarrow> bool" where
  "config_acceptable config =
     (TargetURL config \<noteq> ''''
      \<and> 1 \<le> TotalRequests config \<and> TotalRequests config \<le> 10000
      \<and> 1 \<le> Duration config \<and> Duration config \<le> 3600
      \<and> TrafficType config \<in> {'''', ''normal'', ''attack''}
      \<and> TestMode config \<in> {'''', ''baseline'', ''burst''}
      \<and> UserAgentType config \<in> {'''', ''legitimate'', ''scanner''})"

section \<open>Fixtures\<close>

text \<open>
  Concrete inputs for the evaluated instances below: a configuration with a URL, a
  number of requests, a duration and a test mode, everything else unset; payload pools
  with the same payloads in each attack category and no user agent files; and a world in
  which every request is answered with a given status after a given number of
  milliseconds.
\<close>

definition fixtureConfig :: "string \<Rightarrow> int \<Rightarrow> int \<Rightarrow> string \<Rightarrow> TestConfig" where
  "fixtureConfig url n d mode =
     \<lparr>TargetURL = url, TotalRequests = n, Duration = d, TrafficType = '''', ErrorMode = False,
      UserAgentType = '''', CustomUserAgent = '''', TestMode = mode, HTTPMethod = '''',
      CustomHeaders = Map.empty, RequestBody = ''''\<rparr>"

definition fixturePools :: "string list \<Rightarrow> AttackPayloads" where
  "fixturePools payloads =
     \<lparr>SQLInjection = payloads, XSS = payloads, PathTraversal = payloads,
      CommandInjection = payloads, ScannerUserAgents = [], LegitimateUserAgents = []\<rparr>"

definition fixtureEnv :: "int \<Rightarrow> int \<Rightarrow> RequestEnv" where
  "fixtureEnv code ms =
     \<lparr>rndAttackType = 0, rndPayload = 0, rndAttackAgent = 0, rndUserAgent = 0,
      randomPath = ''/nonexistent-path-1-2'', newRequestError = None,
      transport = Inr \<lparr>StatusCode = code, StatusCodeText = '''', Header = Map.empty,
                        Body = Inr ''''\<rparr>,
      elapsedMs = ms\<rparr>"

definition fixtureWorld :: "int \<Rightarrow> int \<Rightarrow> int \<Rightarrow> RequestEnv" where
  "fixtureWorld code ms = (\<lambda>i. fixtureEnv code ms)"

definition fixtureOutcome :: "int \<Rightarrow> int \<Rightarrow> int \<Rightarrow> RequestResult" where
  "fixtureOutcome i code ms =
     sendRequest i (fixtureConfig ''http://x/y'' 1 1 '''') (fixturePools []) (fixtureEnv code ms)"

section \<open>Vocabulary of the proofs\<close>

text \<open>
  The variables of \<open>calculateStatistics\<close> after its loop, and the positive response
  times of a list of outcomes.
\<close>

definition statisticsOf :: "RequestResult list \<Rightarrow> StatisticsVars" where
  "statisticsOf reqs =
     statisticsLoop reqs
       \<lparr>successCount = 0, errorCount = 0, blockedCount = 0, totalResponseTime = 0,
        minResponse = 999999, maxResponse = 0, responseTimes = []\<rparr>"

definition positive_times :: "RequestResult list \<Rightarrow> int set" where
  "positive_times reqs = {t \<in> set (map ResponseTime reqs). 0 < t}"

text \<open>
  The rate limit fields of a result agree with its outcomes: without a blocked outcome
  the flag is not set, otherwise it is set and the index is the sequence number of the
  first blocked outcome.
\<close>

definition firstBlocked :: "TestResult \<Rightarrow> bool" where
  "firstBlocked result =
     (case find WasBlocked (Requests result) of
        None \<Rightarrow> \<not> RateLimitHit result
      | Some r \<Rightarrow> RateLimitHit result \<and> RateLimitAt result = ID r)"

text \<open>
  The invariant of a streaming session that is not cancelled. \<open>produced k\<close> is the
  list of the first \<open>k\<close> outcomes, \<open>sentCount\<close> the number of outcomes the producer
  has put on the channel.
  The outcomes collected so far followed by the channel are the outcomes sent so far;
  while the collector runs it has seen fewer than all outcomes, and when it has
  returned the last update is the \<open>complete\<close> update of \<open>buildFinalResult\<close> over all
  outcomes.
\<close>

definition produced ::
  "TestConfig \<Rightarrow> AttackPayloads \<Rightarrow> (int \<Rightarrow> RequestEnv) \<Rightarrow> int \<Rightarrow> RequestResult list" where
  "produced config pools world k = map (\<lambda>i. sendRequest i config pools (world i)) [1..k]"

fun sentCount :: "int \<Rightarrow> producer_state \<Rightarrow> int" where
  "sentCount n (ProducerLoop i) = i - 1"
| "sentCount n (ProducerEnqueue i r) = i - 1"
| "sentCount n (ProducerWait i) = i"
| "sentCount n ProducerReturned = n"

fun producerInv ::
  "TestConfig \<Rightarrow> AttackPayloads \<Rightarrow> (int \<Rightarrow> RequestEnv) \<Rightarrow> producer_state \<Rightarrow> bool" where
  "producerInv config pools world (ProducerLoop i) = (1 \<le> i \<and> i \<le> TotalRequests config + 1)"
| "producerInv config pools world (ProducerEnqueue i r) =
     (1 \<le> i \<and> i \<le> TotalRequests config \<and> r = sendRequest i config pools (world i))"
| "producerInv config pools world (ProducerWait i) = (1 \<le> i \<and> i < TotalRequests config)"
| "producerInv config pools world ProducerReturned = True"

fun collectorInv ::
  "TestConfig \<Rightarrow> AttackPayloads \<Rightarrow> (int \<Rightarrow> RequestEnv) \<Rightarrow> string \<Rightarrow> StreamState \<Rightarrow> collector_state \<Rightarrow> bool" where
  "collectorInv config pools world testID s Collecting =
     (int (length (allRequests s)) < TotalRequests config)"
| "collectorInv config pools world testID s CollectorReturned =
     (allRequests s = produced config pools world (TotalRequests config)
      \<and> progressChan s \<noteq> []
      \<and> map_sum id (completeUpdate config testID) (buildFinalResult testID (allRequests s))
          = Inr (last (progressChan s)))"
| "collectorInv config pools world testID s (CollectorPanicked e) = False"

definition streamInv ::
  "TestConfig \<Rightarrow> AttackPayloads \<Rightarrow> (int \<Rightarrow> RequestEnv) \<Rightarrow> string \<Rightarrow> StreamState \<Rightarrow> bool" where
  "streamInv config pools world testID s =
     (\<not> ctxDone s
      \<and> producerInv config pools world (producer s)
      \<and> allRequests s @ resultsChan s
          = produced config pools world (sentCount (TotalRequests config) (producer s))
      \<and> completedCount s = int (length (allRequests s))
      \<and> (resultsClosed s \<longleftrightarrow> producer s = ProducerReturned)
      \<and> collectorInv config pools world testID s (collector s))"

text \<open>
  A schedule that runs a session to its end: for each request the producer sends it,
  enqueues the outcome and finishes its wait, then the collector handles the outcome.
  Between two rounds the session is quiet: the channel is empty and the producer is at
  the head of its loop.
\<close>

definition roundRobin :: "nat \<Rightarrow> action list" where
  "roundRobin n = concat (replicate n [Producer False, Producer False, Producer False, Collector False])"

definition quiet :: "StreamState \<Rightarrow> int \<Rightarrow> bool" where
  "quiet s k \<longleftrightarrow> \<not> ctxDone s \<and> producer s = ProducerLoop (k + 1) \<and> resultsChan s = []
     \<and> completedCount s = k \<and> collector s = Collecting"

section \<open>Properties of the float64 rounding\<close>

declare float64_exponent.simps [simp del]

lemma float64_exponent_small: "0 < x \<Longrightarrow> x < 1 \<Longrightarrow> float64_exponent x = float64_exponent (x * 2) - 1"
  by (subst float64_exponent.simps) simp

lemma float64_exponent_large: "2 \<le> x \<Longrightarrow> float64_exponent x = float64_exponent (x / 2) + 1"
  by (subst float64_exponent.simps) simp

lemma float64_exponent_unit: "1 \<le> x \<Longrightarrow> x < 2 \<Longrightarrow> float64_exponent x = 0"
  by (subst float64_exponent.simps) simp

lemmas float64_eval = float64_def float64_ulp_def round_half_even_def float64_exponent_small float64_exponent_large
  float64_exponent_unit Let_def


lemma pow2_Suc: "(2::real) powi (e + 1) = 2 powi e * 2"
  by (simp add: power_int_add)

lemma pow2_pred: "(2::real) powi (e - 1) = 2 powi e / 2"
  by (simp add: power_int_diff)

lemma pow2_mono: "a \<le> b \<Longrightarrow> (2::real) powi a \<le> 2 powi b"
  by (rule power_int_increasing) simp_all

lemma pow2_less_D: "(2::real) powi a < 2 powi b \<Longrightarrow> a < b"
  using pow2_mono [of b a] by (cases "a < b") simp_all

lemma float64_exponent_bounds:
  "0 < x \<Longrightarrow> 2 powi float64_exponent x \<le> x \<and> x < 2 powi (float64_exponent x + 1)"
proof (induction x rule: float64_exponent.induct)
  case (1 x)
  have pos: "\<not> x \<le> 0" using "1.prems" by simp
  show ?case
  proof (cases "x < 1")
    case True
    have e: "float64_exponent x = float64_exponent (x * 2) - 1"
      using "1.prems" True by (rule float64_exponent_small)
    have "2 powi float64_exponent (x * 2) \<le> x * 2 \<and> x * 2 < 2 powi (float64_exponent (x * 2) + 1)"
      using "1.IH"(1) [OF pos True] "1.prems" by simp
    then show ?thesis unfolding e pow2_pred pow2_Suc by simp
  next
    case False
    show ?thesis
    proof (cases "2 \<le> x")
      case True
      have e: "float64_exponent x = float64_exponent (x / 2) + 1"
        using True by (rule float64_exponent_large)
      have "2 powi float64_exponent (x / 2) \<le> x / 2 \<and> x / 2 < 2 powi (float64_exponent (x / 2) + 1)"
        using "1.IH"(2) [OF pos False True] "1.prems" by simp
      then show ?thesis unfolding e pow2_Suc by simp
    next
      case n2: False
      have "float64_exponent x = 0" using False n2 by (intro float64_exponent_unit) simp_all
      then show ?thesis using False n2 by simp
    qed
  qed
qed



lemma float64_exponent_mono:
  assumes "0 < x" "x \<le> y"
  shows "float64_exponent x \<le> float64_exponent y"
proof -
  have "(2::real) powi float64_exponent x < 2 powi (float64_exponent y + 1)"
    using float64_exponent_bounds [of x] float64_exponent_bounds [of y] assms by simp
  then show ?thesis using pow2_less_D by fastforce
qed

lemma round_half_even_int [simp]: "round_half_even (real_of_int k) = k"
  by (simp add: round_half_even_def)



lemma round_half_even_lower: "real_of_int k \<le> y \<Longrightarrow> k \<le> round_half_even y"
proof -
  assume "real_of_int k \<le> y"
  then have "k \<le> \<lfloor>y\<rfloor>" by (simp add: le_floor_iff)
  then show ?thesis unfolding round_half_even_def Let_def by auto
qed

lemma round_half_even_upper: "y \<le> real_of_int k \<Longrightarrow> round_half_even y \<le> k"
proof (cases "y = real_of_int k")
  case True
  then show ?thesis by simp
next
  case False
  assume "y \<le> real_of_int k"
  then have "y < real_of_int k" using False by simp
  then have "\<lfloor>y\<rfloor> < k" by (simp add: floor_less_iff)
  then show ?thesis unfolding round_half_even_def Let_def by auto
qed

lemma round_half_even_mono:
  assumes "x \<le> y"
  shows "round_half_even x \<le> round_half_even y"
proof (cases "\<lfloor>x\<rfloor> = \<lfloor>y\<rfloor>")
  case True
  have "x - real_of_int \<lfloor>y\<rfloor> \<le> y - real_of_int \<lfloor>y\<rfloor>" using assms by simp
  then show ?thesis unfolding round_half_even_def Let_def True by auto
next
  case False
  then have "\<lfloor>x\<rfloor> < \<lfloor>y\<rfloor>" using floor_mono [OF assms] by simp
  then have "\<lfloor>x\<rfloor> + 1 \<le> \<lfloor>y\<rfloor>" by simp
  moreover have "round_half_even x \<le> \<lfloor>x\<rfloor> + 1" unfolding round_half_even_def Let_def by auto
  moreover have "\<lfloor>y\<rfloor> \<le> round_half_even y" unfolding round_half_even_def Let_def by auto
  ultimately show ?thesis by linarith
qed

lemma float64_ulp_pos: "0 < float64_ulp x"
  by (simp add: float64_ulp_def)

lemma float64_0 [simp]: "float64 0 = 0"
  by (simp add: float64_def)

lemma float64_pos:
  "0 < x \<Longrightarrow> float64 x = real_of_int (round_half_even (x / float64_ulp x)) * float64_ulp x"
  by (simp add: float64_def)

lemma float64_nonneg: "0 \<le> x \<Longrightarrow> 0 \<le> float64 x"
proof (cases "x = 0")
  case True
  then show ?thesis by simp
next
  case False
  assume "0 \<le> x"
  then have x: "0 < x" using False by simp
  have "0 \<le> x / float64_ulp x" using x float64_ulp_pos [of x] by simp
  then have "0 \<le> round_half_even (x / float64_ulp x)"
    using round_half_even_lower [of 0] by simp
  then show ?thesis
    using float64_ulp_pos [of x] by (simp add: float64_pos [OF x])
qed

lemma float64_ulp_exponent:
  assumes "0 < x"
  shows "float64_ulp x = 2 powi (max (float64_exponent x) (- 1022) - 52)"
  using assms by (simp add: float64_ulp_def)

text \<open>A value with a significand below \<open>2^53\<close> and an exponent from \<open>-1074\<close> is represented exactly.\<close>

lemma float64_exact:
  assumes "0 \<le> m" "m < 2 ^ 53" "- 1074 \<le> j"
  shows "float64 (real_of_int m * 2 powi j) = real_of_int m * 2 powi j"
proof (cases "m = 0")
  case True
  then show ?thesis by simp
next
  case False
  define x where "x = real_of_int m * 2 powi j"
  define E where "E = max (float64_exponent x) (- 1022)"
  have m: "0 < m" using assms(1) False by simp
  have x: "0 < x" using m by (simp add: x_def)
  have "2 powi float64_exponent x \<le> x" using float64_exponent_bounds [OF x] by simp
  also have "x < 2 ^ 53 * 2 powi j"
    using assms(2) unfolding x_def by (intro mult_strict_right_mono) (simp_all flip: of_int_less_iff)
  also have "(2::real) ^ 53 * 2 powi j = 2 powi (53 + j)"
    by (simp add: power_int_add)
  finally have "float64_exponent x < 53 + j" by (rule pow2_less_D)
  then have d: "0 \<le> j - (E - 52)" using assms(3) by (simp add: E_def)
  have u: "float64_ulp x = 2 powi (E - 52)" by (simp add: float64_ulp_exponent [OF x] E_def)
  have "(2::real) powi j = 2 powi (E - 52) * 2 powi (j - (E - 52))"
    by (simp flip: power_int_add)
  also have "(2::real) powi (j - (E - 52)) = 2 ^ nat (j - (E - 52))"
    using d by (simp add: power_int_nonneg_exp)
  finally have j: "(2::real) powi j = 2 powi (E - 52) * 2 ^ nat (j - (E - 52))" .
  have q: "x / 2 powi (E - 52) = real_of_int (m * 2 ^ nat (j - (E - 52)))"
    unfolding x_def by (subst j) simp
  have "round_half_even (x / float64_ulp x) = m * 2 ^ nat (j - (E - 52))"
    unfolding u q by (rule round_half_even_int)
  then have "float64 x = real_of_int (m * 2 ^ nat (j - (E - 52))) * 2 powi (E - 52)"
    by (simp add: float64_pos [OF x] u)
  also have "\<dots> = x" unfolding x_def by (subst j) simp
  finally show ?thesis by (simp add: x_def)
qed

lemma float64_of_int: "0 \<le> m \<Longrightarrow> m \<le> 2 ^ 53 \<Longrightarrow> float64 (real_of_int m) = real_of_int m"
proof (cases "m = 2 ^ 53")
  case True
  have "float64 (real_of_int (2 ^ 52) * 2 powi 1) = real_of_int (2 ^ 52) * 2 powi 1"
    by (rule float64_exact) simp_all
  then show ?thesis using True by simp
next
  case False
  assume "0 \<le> m" "m \<le> 2 ^ 53"
  then show ?thesis using False float64_exact [of m 0] by simp
qed

text \<open>Within its binade a positive value rounds to a value of the binade or its upper end.\<close>

lemma float64_binade:
  assumes "0 < x"
  defines "E \<equiv> max (float64_exponent x) (- 1022)"
  shows "float64 x \<le> 2 powi (E + 1)"
    and "- 1022 \<le> float64_exponent x \<Longrightarrow> 2 powi E \<le> float64 x"
proof -
  have u: "float64_ulp x = 2 powi (E - 52)" by (simp add: float64_ulp_exponent [OF assms(1)] E_def)
  have p53: "(2::real) powi (E + 1) = 2 ^ 53 * 2 powi (E - 52)"
    using power_int_add [of "2::real" 53 "E - 52"] by (simp add: add.commute)
  have p52: "(2::real) powi E = 2 ^ 52 * 2 powi (E - 52)"
    using power_int_add [of "2::real" 52 "E - 52"] by simp
  have "x < 2 powi (float64_exponent x + 1)" using float64_exponent_bounds [OF assms(1)] by simp
  also have "\<dots> \<le> 2 powi (E + 1)" by (rule pow2_mono) (simp add: E_def)
  finally have "x / 2 powi (E - 52) \<le> 2 ^ 53" by (simp add: p53 field_simps)
  then have "round_half_even (x / 2 powi (E - 52)) \<le> 2 ^ 53"
    using round_half_even_upper [of "x / 2 powi (E - 52)" "2 ^ 53"] by simp
  then have "real_of_int (round_half_even (x / 2 powi (E - 52))) \<le> 2 ^ 53"
    by (simp flip: of_int_le_iff)
  then show "float64 x \<le> 2 powi (E + 1)"
    unfolding float64_pos [OF assms(1)] u p53 by (intro mult_right_mono) simp_all
  assume "- 1022 \<le> float64_exponent x"
  then have "E = float64_exponent x" by (simp add: E_def)
  then have "2 powi E \<le> x" using float64_exponent_bounds [OF assms(1)] by simp
  then have "2 ^ 52 \<le> x / 2 powi (E - 52)" by (simp add: p52 field_simps)
  then have "2 ^ 52 \<le> round_half_even (x / 2 powi (E - 52))"
    using round_half_even_lower [of "2 ^ 52" "x / 2 powi (E - 52)"] by simp
  then have "2 ^ 52 \<le> real_of_int (round_half_even (x / 2 powi (E - 52)))"
    by (simp flip: of_int_le_iff)
  then show "2 powi E \<le> float64 x"
    unfolding float64_pos [OF assms(1)] u p52 by (intro mult_right_mono) simp_all
qed

lemma float64_mono:
  assumes "0 \<le> x" "x \<le> y"
  shows "float64 x \<le> float64 y"
proof (cases "x = 0")
  case True
  then show ?thesis using float64_nonneg [of y] assms by simp
next
  case False
  then have x: "0 < x" and y: "0 < y" using assms by simp_all
  define Ex where "Ex = max (float64_exponent x) (- 1022)"
  define Ey where "Ey = max (float64_exponent y) (- 1022)"
  have le: "Ex \<le> Ey" using float64_exponent_mono [OF x assms(2)] by (simp add: Ex_def Ey_def)
  show ?thesis
  proof (cases "Ex = Ey")
    case True
    then have u: "float64_ulp y = float64_ulp x"
      by (simp add: float64_ulp_exponent x y Ex_def Ey_def)
    have "x / float64_ulp x \<le> y / float64_ulp x"
      using assms(2) float64_ulp_pos [of x] by (simp add: divide_right_mono)
    then have "round_half_even (x / float64_ulp x) \<le> round_half_even (y / float64_ulp x)"
      by (rule round_half_even_mono)
    then show ?thesis
      unfolding float64_pos [OF x] float64_pos [OF y] u
      using float64_ulp_pos [of x] by (intro mult_right_mono) simp_all
  next
    case False
    then have lt: "Ex + 1 \<le> Ey" using le by simp
    then have "- 1022 \<le> float64_exponent y" by (simp add: Ex_def Ey_def)
    then have "2 powi Ey \<le> float64 y" using float64_binade(2) [OF y] by (simp add: Ey_def)
    moreover have "float64 x \<le> 2 powi (Ex + 1)" using float64_binade(1) [OF x] by (simp add: Ex_def)
    moreover have "(2::real) powi (Ex + 1) \<le> 2 powi Ey" using lt by (rule pow2_mono)
    ultimately show ?thesis by linarith
  qed
qed






section \<open>Properties of the percentile calculator\<close>

lemma go_int_of_float_mono: "x \<le> y \<Longrightarrow> go_int_of_float x \<le> go_int_of_float y"
  unfolding go_int_of_float_def
  by (auto intro: floor_mono ceiling_mono) (smt (verit) ceiling_le_zero zero_le_floor)

lemma go_int_of_float_nonneg: "-1 < x \<Longrightarrow> 0 \<le> go_int_of_float x"
  unfolding go_int_of_float_def by (auto simp: le_ceiling_iff)

lemma go_int_of_float_int [simp]: "go_int_of_float (real_of_int k) = k"
  by (simp add: go_int_of_float_def)

text \<open>The value before the conversion, as a function of the percentile.\<close>

lemma index_sum_nonneg:
  assumes "0 < n" "0 \<le> p"
  shows "0 \<le> float64 (float64 (float64 (p / 100) * float64 (real_of_int (int n - 1))) + 0.5)"
proof -
  have p: "0 \<le> float64 (p / 100)" using assms(2) by (intro float64_nonneg) simp
  have m: "0 \<le> float64 (real_of_int (int n - 1))" using assms(1) by (intro float64_nonneg) simp
  have "0 \<le> float64 (float64 (p / 100) * float64 (real_of_int (int n - 1)))"
    by (rule float64_nonneg [OF mult_nonneg_nonneg [OF p m]])
  then have "0 \<le> float64 (float64 (p / 100) * float64 (real_of_int (int n - 1))) + 0.5"
    by simp
  then show ?thesis by (rule float64_nonneg)
qed

lemma index_sum_mono:
  assumes "0 < n" "0 \<le> p" "p \<le> q"
  shows "float64 (float64 (float64 (p / 100) * float64 (real_of_int (int n - 1))) + 0.5)
       \<le> float64 (float64 (float64 (q / 100) * float64 (real_of_int (int n - 1))) + 0.5)"
proof -
  have p: "0 \<le> float64 (p / 100)" using assms(2) by (intro float64_nonneg) simp
  have m: "0 \<le> float64 (real_of_int (int n - 1))" using assms(1) by (intro float64_nonneg) simp
  have "float64 (p / 100) \<le> float64 (q / 100)" using assms(2,3) by (intro float64_mono) simp_all
  then have "float64 (p / 100) * float64 (real_of_int (int n - 1))
      \<le> float64 (q / 100) * float64 (real_of_int (int n - 1))"
    using m by (rule mult_right_mono)
  then have le: "float64 (float64 (p / 100) * float64 (real_of_int (int n - 1)))
      \<le> float64 (float64 (q / 100) * float64 (real_of_int (int n - 1)))"
    by (rule float64_mono [OF mult_nonneg_nonneg [OF p m]])
  have i: "0 \<le> float64 (float64 (p / 100) * float64 (real_of_int (int n - 1)))"
    by (rule float64_nonneg [OF mult_nonneg_nonneg [OF p m]])
  have "0 \<le> float64 (float64 (p / 100) * float64 (real_of_int (int n - 1))) + 0.5"
    using i by simp
  moreover have "float64 (float64 (p / 100) * float64 (real_of_int (int n - 1))) + 0.5
      \<le> float64 (float64 (q / 100) * float64 (real_of_int (int n - 1))) + 0.5"
    using le by simp
  ultimately show ?thesis by (rule float64_mono)
qed

lemma roundedIndex_less: "0 < n \<Longrightarrow> roundedIndex n p < int n"
  by (simp add: roundedIndex_def Let_def)

lemma roundedIndex_nonneg: "0 < n \<Longrightarrow> 0 \<le> p \<Longrightarrow> 0 \<le> roundedIndex n p"
  using go_int_of_float_nonneg index_sum_nonneg [of n p]
  by (simp add: roundedIndex_def Let_def)

lemma roundedIndex_mono:
  assumes "0 < n" "0 \<le> p" "p \<le> q"
  shows "roundedIndex n p \<le> roundedIndex n q"
  using go_int_of_float_mono [OF index_sum_mono [OF assms]] assms(1)
  by (auto simp: roundedIndex_def Let_def)

lemma roundedIndex_100:
  assumes "0 < n" "n \<le> 2 ^ 53"
  shows "roundedIndex n 100 = int n - 1"
proof -
  have n: "0 \<le> int n - 1" "int n - 1 \<le> 2 ^ 53" using assms by simp_all
  have m: "float64 (real_of_int (int n - 1)) = real_of_int (int n - 1)"
    by (rule float64_of_int [OF n])
  have one: "float64 (100 / 100) = 1" using float64_of_int [of 1] by simp
  have i: "float64 (float64 (100 / 100) * float64 (real_of_int (int n - 1))) = real_of_int (int n - 1)"
    by (simp only: one m mult_1)
  have "float64 (real_of_int (int n - 1)) \<le> float64 (real_of_int (int n - 1) + 0.5)"
    using n(1) by (intro float64_mono) simp_all
  then have "go_int_of_float (real_of_int (int n - 1)) \<le> go_int_of_float (float64 (real_of_int (int n - 1) + 0.5))"
    unfolding m by (rule go_int_of_float_mono)
  then have "int n - 1 \<le> go_int_of_float (float64 (real_of_int (int n - 1) + 0.5))"
    by (simp only: go_int_of_float_int)
  then show ?thesis
    unfolding roundedIndex_def Let_def i by auto
qed

lemma sorted_last_Max:
  assumes "sorted xs" "xs \<noteq> []"
  shows "xs ! (length xs - 1) = Max (set (xs::int list))"
proof -
  have "xs ! (length xs - 1) \<in> set xs" using assms(2) by simp
  moreover have "y \<le> xs ! (length xs - 1)" if "y \<in> set xs" for y
  proof -
    from that obtain i where "i < length xs" "xs ! i = y" by (auto simp: in_set_conv_nth)
    then show ?thesis using sorted_nth_mono [OF assms(1), of i "length xs - 1"] by auto
  qed
  ultimately show ?thesis by (intro Max_eqI [symmetric]) auto
qed

lemma calculatePercentile_nth:
  assumes "xs \<noteq> []" "0 \<le> p"
  shows "calculatePercentile xs p = Inr (xs ! nat (roundedIndex (length xs) p))"
  using assms roundedIndex_nonneg [of "length xs" p] roundedIndex_less [of "length xs" p]
  by (simp add: calculatePercentile_def go_index_def)

lemma calculatePercentile_mono:
  assumes "sorted xs" "xs \<noteq> []" "0 \<le> p" "p \<le> q"
  shows "\<exists>a b. calculatePercentile xs p = Inr a \<and> calculatePercentile xs q = Inr b \<and> a \<le> b"
proof -
  let ?n = "length xs"
  have n: "0 < ?n" using assms(2) by simp
  have ip: "0 \<le> roundedIndex ?n p" by (rule roundedIndex_nonneg [OF n assms(3)])
  have le: "roundedIndex ?n p \<le> roundedIndex ?n q"
    by (rule roundedIndex_mono [OF n assms(3,4)])
  have lt: "roundedIndex ?n q < int ?n" by (rule roundedIndex_less [OF n])
  have "xs ! nat (roundedIndex ?n p) \<le> xs ! nat (roundedIndex ?n q)"
    using ip le lt by (intro sorted_nth_mono [OF assms(1)]) auto
  moreover have "calculatePercentile xs p = Inr (xs ! nat (roundedIndex ?n p))"
    by (rule calculatePercentile_nth [OF assms(2,3)])
  moreover have "calculatePercentile xs q = Inr (xs ! nat (roundedIndex ?n q))"
    using calculatePercentile_nth [OF assms(2), of q] assms(3,4) by simp
  ultimately show ?thesis by simp
qed

lemma calculateResponseTimePercentiles_ok:
  "\<exists>p50 p95 p99. calculateResponseTimePercentiles rts = Inr (p50, p95, p99)
       \<and> p50 \<le> p95 \<and> p95 \<le> p99"
proof (cases "rts = []")
  case True
  then show ?thesis by (simp add: calculateResponseTimePercentiles_def)
next
  case False
  let ?s = "sortInts rts"
  have "length ?s = length rts" by (simp add: sortInts_def)
  then have "?s \<noteq> []" using False by (metis length_0_conv)
  then have s: "sorted ?s" "?s \<noteq> []" by (simp_all add: sortInts_def)
  obtain a b where ab: "calculatePercentile ?s 50 = Inr a" "calculatePercentile ?s 95 = Inr b" "a \<le> b"
    using calculatePercentile_mono [OF s, of 50 95] by auto
  obtain b' c where bc: "calculatePercentile ?s 95 = Inr b'" "calculatePercentile ?s 99 = Inr c" "b' \<le> c"
    using calculatePercentile_mono [OF s, of 95 99] by auto
  show ?thesis using False ab bc
    by (simp add: calculateResponseTimePercentiles_def Let_def)
qed

lemma calculatePercentile_100:
  assumes "sorted xs" "xs \<noteq> []" "length xs \<le> 2 ^ 53"
  shows "calculatePercentile xs 100 = Inr (Max (set xs))"
proof -
  have "calculatePercentile xs 100 = Inr (xs ! nat (roundedIndex (length xs) 100))"
    using calculatePercentile_nth [of xs 100] assms by simp
  also have "nat (roundedIndex (length xs) 100) = length xs - 1"
    using assms by (simp add: roundedIndex_100)
  finally show ?thesis
    using sorted_last_Max assms by simp
qed

lemmas roundedIndex_eval = roundedIndex_def go_int_of_float_def float64_eval



text \<open>
  Where \<open>float64\<close> rounds the product below a half-integer the truncation gives the
  lower rank: for 26 values the 58th percentile has the product 14.499999999999998
  and reads index 14. A product one unit below one half is carried to 1 by the sum.
\<close>

lemma percentile_tie_index: "roundedIndex 26 58 = 14"
  by (simp add: roundedIndex_eval)

lemma percentile_negative_index: "roundedIndex 5 (-100) = -3"
  by (simp add: roundedIndex_eval)

lemma percentile_below_half: "roundedIndex 2 (50 - 1 / 2 ^ 47) = 1"
  by (simp add: roundedIndex_eval)







text \<open>
  The conversion \<open>int(index + 0.5)\<close> is applied inside the range where Go defines it,
  for every percentile from 0 to 100 and every length that a slice can have.
\<close>

lemma index_sum_in_range:
  assumes "0 < n" "n \<le> 2 ^ 62" "0 \<le> p" "p \<le> 100"
  shows "0 \<le> float64 (float64 (float64 (p / 100) * float64 (real_of_int (int n - 1))) + 0.5)"
    and "float64 (float64 (float64 (p / 100) * float64 (real_of_int (int n - 1))) + 0.5) < 2 ^ 63"
proof -
  define c where "c = float64 (p / 100)"
  define M where "M = float64 (real_of_int (int n - 1))"
  define T where "T = (2::real) ^ 62"
  define B where "B = (2::real) ^ 62 + 2 ^ 10"
  show "0 \<le> float64 (float64 (float64 (p / 100) * float64 (real_of_int (int n - 1))) + 0.5)"
    by (rule index_sum_nonneg [OF assms(1,3)])
  have one: "float64 1 = 1" using float64_of_int [of 1] by simp
  have T: "float64 T = T" using float64_exact [of 1 62] by (simp add: T_def)
  have B: "float64 B = B" using float64_exact [of "2 ^ 52 + 1" 10] by (simp add: B_def)
  have "float64 (p / 100) \<le> float64 1" using assms(3,4) by (intro float64_mono) simp_all
  then have c: "0 \<le> c" "c \<le> 1"
    using float64_nonneg [of "p / 100"] assms(3) by (simp_all add: c_def one)
  have m: "0 \<le> real_of_int (int n - 1)" "real_of_int (int n - 1) \<le> T"
    using assms(1,2) by (simp_all add: T_def flip: of_nat_le_iff)
  have M: "0 \<le> M" "M \<le> T"
    using float64_nonneg [OF m(1)] float64_mono [OF m] by (simp_all add: M_def T)
  have "c * M \<le> 1 * M" using c(2) M(1) by (rule mult_right_mono)
  then have cM: "0 \<le> c * M" "c * M \<le> T" using M c(1) by simp_all
  have f: "0 \<le> float64 (c * M)" "float64 (c * M) \<le> T"
    using float64_nonneg [OF cM(1)] float64_mono [OF cM] by (simp_all add: T)
  then have s: "0 \<le> float64 (c * M) + 0.5" "float64 (c * M) + 0.5 \<le> B"
    by (simp_all add: T_def B_def)
  have "float64 (float64 (c * M) + 0.5) \<le> B" using float64_mono [OF s] by (simp add: B)
  then show "float64 (float64 (float64 (p / 100) * float64 (real_of_int (int n - 1))) + 0.5) < 2 ^ 63"
    unfolding c_def M_def B_def by simp
qed


subsection \<open>The fused product and sum\<close>



lemma fused_sum_nonneg:
  assumes "0 < n" "0 \<le> p"
  shows "0 \<le> float64 (float64 (p / 100) * float64 (real_of_int (int n - 1)) + 0.5)"
proof -
  have p: "0 \<le> float64 (p / 100)" using assms(2) by (intro float64_nonneg) simp
  have m: "0 \<le> float64 (real_of_int (int n - 1))" using assms(1) by (intro float64_nonneg) simp
  have "0 \<le> float64 (p / 100) * float64 (real_of_int (int n - 1)) + 0.5"
    using mult_nonneg_nonneg [OF p m] by simp
  then show ?thesis by (rule float64_nonneg)
qed

lemma fused_sum_mono:
  assumes "0 < n" "0 \<le> p" "p \<le> q"
  shows "float64 (float64 (p / 100) * float64 (real_of_int (int n - 1)) + 0.5)
       \<le> float64 (float64 (q / 100) * float64 (real_of_int (int n - 1)) + 0.5)"
proof -
  have p: "0 \<le> float64 (p / 100)" using assms(2) by (intro float64_nonneg) simp
  have m: "0 \<le> float64 (real_of_int (int n - 1))" using assms(1) by (intro float64_nonneg) simp
  have "float64 (p / 100) \<le> float64 (q / 100)" using assms(2,3) by (intro float64_mono) simp_all
  then have "float64 (p / 100) * float64 (real_of_int (int n - 1))
      \<le> float64 (q / 100) * float64 (real_of_int (int n - 1))"
    using m by (rule mult_right_mono)
  then have le: "float64 (p / 100) * float64 (real_of_int (int n - 1)) + 0.5
      \<le> float64 (q / 100) * float64 (real_of_int (int n - 1)) + 0.5"
    by simp
  have "0 \<le> float64 (p / 100) * float64 (real_of_int (int n - 1)) + 0.5"
    using mult_nonneg_nonneg [OF p m] by simp
  then show ?thesis using le by (rule float64_mono)
qed

lemma roundedIndexFused_less: "0 < n \<Longrightarrow> roundedIndexFused n p < int n"
  by (simp add: roundedIndexFused_def Let_def)

lemma roundedIndexFused_nonneg: "0 < n \<Longrightarrow> 0 \<le> p \<Longrightarrow> 0 \<le> roundedIndexFused n p"
  using go_int_of_float_nonneg fused_sum_nonneg [of n p]
  by (simp add: roundedIndexFused_def Let_def)

lemma roundedIndexFused_mono:
  assumes "0 < n" "0 \<le> p" "p \<le> q"
  shows "roundedIndexFused n p \<le> roundedIndexFused n q"
  using go_int_of_float_mono [OF fused_sum_mono [OF assms]] assms(1)
  by (auto simp: roundedIndexFused_def Let_def)



lemma percentile_tie_index_fused: "roundedIndexFused 26 58 = 14"
  by (simp add: roundedIndexFused_def go_int_of_float_def float64_eval)



text \<open>
  Claim C8. For every list of response times the three percentiles are computed and
  are monotone, \<open>p50 \<le> p95 \<le> p99\<close>; for every non-empty sorted list the 100th
  percentile is the maximum of the list. The conversion \<open>float64(n - 1)\<close> is exact up to
  \<open>2^53\<close>, more values than a slice can hold.
\<close>

theorem percentiles_monotone_and_p100_is_max:
  "(\<exists>p50 p95 p99. calculateResponseTimePercentiles rts = Inr (p50, p95, p99)
       \<and> p50 \<le> p95 \<and> p95 \<le> p99)
   \<and> (sorted xs \<and> xs \<noteq> [] \<and> length xs \<le> 2 ^ 53
        \<longrightarrow> calculatePercentile xs 100 = Inr (Max (set xs)))"
  using calculateResponseTimePercentiles_ok calculatePercentile_100 by blast

theorem percentiles_monotone_and_p100_is_max_witness:
  "(\<exists>p50 p95 p99. calculateResponseTimePercentiles [30, 10, 20] = Inr (p50, p95, p99)
       \<and> p50 \<le> p95 \<and> p95 \<le> p99)
   \<and> sorted [10, 20, 30 :: int] \<and> [10, 20, 30 :: int] \<noteq> []
   \<and> length [10, 20, 30 :: int] \<le> 2 ^ 53
   \<and> calculatePercentile [10, 20, 30] 100 = Inr 30"
  using percentiles_monotone_and_p100_is_max [of "[30, 10, 20]" "[10, 20, 30]"] by simp

text \<open>
  Claim C10. For a non-empty list of length \<open>n\<close> and a percentile \<open>p\<close> with
  \<open>0 \<le> p \<le> 100\<close> the index computed by \<open>calculatePercentile\<close>, the \<open>float64\<close> value
  of \<open>p / 100 * (n - 1) + 0.5\<close> truncated and clamped from above, lies in \<open>[0, n - 1]\<close>
  and the read succeeds; so it does at \<open>n = 26\<close> and \<open>p = 58\<close>, where the sum is just
  below 15 and the index is 14. The index of a build that fuses the product and the
  sum lies in \<open>[0, n - 1]\<close> as well. The code clamps the upper end only: the lower bound
  rests on \<open>0 \<le> p\<close>, and a negative percentile can give a negative index, as
  \<open>p = -100\<close> does for five values.
\<close>

theorem calculatePercentile_index_in_bounds:
  "(xs \<noteq> [] \<and> 0 \<le> p \<and> p \<le> 100
      \<longrightarrow> 0 \<le> roundedIndex (length xs) p \<and> roundedIndex (length xs) p \<le> int (length xs) - 1
        \<and> calculatePercentile xs p = Inr (xs ! nat (roundedIndex (length xs) p))
        \<and> 0 \<le> roundedIndexFused (length xs) p
        \<and> roundedIndexFused (length xs) p \<le> int (length xs) - 1)
   \<and> roundedIndex 26 58 = 14
   \<and> roundedIndex 5 (-100) = -3
   \<and> calculatePercentile [1, 2, 3, 4, 5] (-100) = Inl IndexOutOfRange"
proof -
  have "0 \<le> roundedIndex (length xs) p \<and> roundedIndex (length xs) p \<le> int (length xs) - 1
        \<and> calculatePercentile xs p = Inr (xs ! nat (roundedIndex (length xs) p))
        \<and> 0 \<le> roundedIndexFused (length xs) p
        \<and> roundedIndexFused (length xs) p \<le> int (length xs) - 1"
    if h: "xs \<noteq> []" "0 \<le> p" for xs :: "int list" and p
  proof -
    have n: "0 < length xs" using h(1) by simp
    show ?thesis
      using roundedIndex_nonneg [OF n h(2)] roundedIndex_less [OF n, of p]
        roundedIndexFused_nonneg [OF n h(2)] roundedIndexFused_less [OF n, of p]
        calculatePercentile_nth [OF h] by simp
  qed
  moreover have "calculatePercentile [1, 2, 3, 4, 5] (-100) = Inl IndexOutOfRange"
  proof -
    have l: "length [1, 2, 3, 4, 5 :: int] = 5" by simp
    show ?thesis
      unfolding calculatePercentile_def l percentile_negative_index go_index_def by simp
  qed
  ultimately show ?thesis
    using percentile_tie_index percentile_negative_index by blast
qed

theorem calculatePercentile_index_in_bounds_witness:
  "[5, 6, 7, 8] \<noteq> ([] :: int list) \<and> (0::real) \<le> 99 \<and> (99::real) \<le> 100
   \<and> roundedIndex (length [5, 6, 7, 8 :: int]) 99 = 3
   \<and> calculatePercentile [5, 6, 7, 8] 99 = Inr 8"
proof -
  have "roundedIndex (length [5, 6, 7, 8 :: int]) 99 = 3"
    by (simp add: roundedIndex_eval)
  then show ?thesis
    using calculatePercentile_index_in_bounds [of "[5, 6, 7, 8]" 99] by simp
qed

section \<open>Properties of the pacing interval\<close>

lemma go_wrap_id: "- (2 ^ 63) \<le> x \<Longrightarrow> x < 2 ^ 63 \<Longrightarrow> go_wrap x = x"
  by (simp add: go_wrap_def)

lemma go_mul_id: "- (2 ^ 63) \<le> a * b \<Longrightarrow> a * b < 2 ^ 63 \<Longrightarrow> go_mul a b = a * b"
  by (simp add: go_mul_def go_wrap_id)

lemma go_quot_nonneg: "0 \<le> a \<Longrightarrow> 0 < b \<Longrightarrow> go_quot a b = a div b"
  by (simp add: go_quot_def)

lemma go_div_pos:
  assumes "0 \<le> a" "a < 2 ^ 63" "0 < b"
  shows "go_div a b = Inr (a div b)"
proof -
  have "0 \<le> a div b" using assms(1,3) by (simp add: pos_imp_zdiv_nonneg_iff)
  moreover have "a div b \<le> a" using zdiv_mono2 [of a 1 b] assms(1,3) by simp
  ultimately have "go_wrap (a div b) = a div b"
    using assms(2) by (intro go_wrap_id) linarith+
  then show ?thesis
    using assms by (simp add: go_div_def go_quot_nonneg)
qed

text \<open>
  Outside the validated range the product wraps: a duration of 9223372036854776
  seconds gives a negative interval.
\<close>

lemma calculateInterval_wraps:
  "calculateInterval (fixtureConfig ''http://x/y'' 1 9223372036854776 '''')
     = Inr (- 9223372036854775616)"
  by (simp add: calculateInterval_def go_div_def go_quot_def go_mul_def go_wrap_def
      fixtureConfig_def)

text \<open>
  Claim C5. For a configuration in the validated range, from 1 to 10000 requests and
  a duration from 1 to 3600 seconds, the interval is \<open>D * 1000 / N\<close> by integer
  division in every mode but \<open>burst\<close>, and \<open>(D / 2) * 1000 / N\<close> in burst mode, \<open>D / 2\<close>
  an integer division too. It is a value, never a panic, it is not negative, and
  where the division collapses (the dividend is below \<open>N\<close>) the value is 0.
\<close>

theorem calculateInterval_integer_division:
  assumes "1 \<le> TotalRequests config" and "TotalRequests config \<le> 10000"
    and "1 \<le> Duration config" and "Duration config \<le> 3600"
  shows "calculateInterval config =
           Inr (if TestMode config = ''burst''
                then ((Duration config div 2) * 1000) div TotalRequests config
                else (Duration config * 1000) div TotalRequests config)
         \<and> (\<exists>ms. calculateInterval config = Inr ms \<and> 0 \<le> ms)
         \<and> (TestMode config \<noteq> ''burst'' \<and> Duration config * 1000 < TotalRequests config
              \<longrightarrow> calculateInterval config = Inr 0)
         \<and> (TestMode config = ''burst'' \<and> (Duration config div 2) * 1000 < TotalRequests config
              \<longrightarrow> calculateInterval config = Inr 0)"
proof -
  have n: "0 < TotalRequests config" using assms(1) by simp
  have d: "0 \<le> Duration config * 1000" "Duration config * 1000 < 2 ^ 63"
    using assms(3,4) by simp_all
  have h: "go_quot (Duration config) 2 = Duration config div 2"
    using assms(3) by (simp add: go_quot_nonneg)
  have b: "0 \<le> (Duration config div 2) * 1000" "(Duration config div 2) * 1000 < 2 ^ 63"
    using assms(3,4) by simp_all
  have md: "go_mul (Duration config) 1000 = Duration config * 1000"
    using d by (intro go_mul_id) simp_all
  have mb: "go_mul (Duration config div 2) 1000 = (Duration config div 2) * 1000"
    using b by (intro go_mul_id) simp_all
  have eq: "calculateInterval config =
           Inr (if TestMode config = ''burst''
                then ((Duration config div 2) * 1000) div TotalRequests config
                else (Duration config * 1000) div TotalRequests config)"
    using go_div_pos [OF d n] go_div_pos [OF b n] h md mb
    by (simp add: calculateInterval_def Let_def)
  have nonneg: "0 \<le> (if TestMode config = ''burst''
                then ((Duration config div 2) * 1000) div TotalRequests config
                else (Duration config * 1000) div TotalRequests config)"
    using n d(1) b(1) by (simp add: pos_imp_zdiv_nonneg_iff)
  have z1: "Duration config * 1000 < TotalRequests config
      \<Longrightarrow> (Duration config * 1000) div TotalRequests config = 0"
    using d(1) by (simp add: div_pos_pos_trivial)
  have z2: "(Duration config div 2) * 1000 < TotalRequests config
      \<Longrightarrow> ((Duration config div 2) * 1000) div TotalRequests config = 0"
    using b(1) by (simp add: div_pos_pos_trivial)
  show ?thesis
    using eq nonneg z1 z2 by auto
qed

theorem calculateInterval_integer_division_witness:
  "calculateInterval (fixtureConfig ''http://x/y'' 3 10 ''baseline'') = Inr 3333
   \<and> calculateInterval (fixtureConfig ''http://x/y'' 3 11 ''burst'') = Inr 1666
   \<and> calculateInterval (fixtureConfig ''http://x/y'' 10000 1 ''burst'') = Inr 0
   \<and> calculateInterval (fixtureConfig ''http://x/y'' 10000 9 ''baseline'') = Inr 0"
  using calculateInterval_integer_division [of "fixtureConfig ''http://x/y'' 3 10 ''baseline''"]
    calculateInterval_integer_division [of "fixtureConfig ''http://x/y'' 3 11 ''burst''"]
    calculateInterval_integer_division [of "fixtureConfig ''http://x/y'' 10000 1 ''burst''"]
    calculateInterval_integer_division [of "fixtureConfig ''http://x/y'' 10000 9 ''baseline''"]
  by (simp add: fixtureConfig_def)

section \<open>Properties of the attack request\<close>

lemma strings_Contains_char: "strings_Contains s [c] \<longleftrightarrow> c \<in> set s"
  by (induction s) auto

text \<open>
  Claim C7. With method \<open>GET\<close> or no method, and a selected payload \<open>P\<close> that is not
  empty, \<open>BuildAttackRequest\<close> returns the configured URL followed by
  \<open>?id=P&search=P\<close> when the URL has no question mark and by \<open>&id=P&search=P\<close> when
  it has one.
\<close>

theorem BuildAttackRequest_get_injection:
  assumes "HTTPMethod config = ''GET'' \<or> HTTPMethod config = ''''"
    and "GetRandomPayload pools (rndPayload env) (GetRandomAttackType (rndAttackType env)) = P"
    and "P \<noteq> ''''"
  shows "fst (BuildAttackRequest config pools env) =
           TargetURL config
           @ (if CHR ''?'' \<in> set (TargetURL config) then ''&'' else ''?'')
           @ ''id='' @ P @ ''&search='' @ P"
  using assms by (auto simp: BuildAttackRequest_def Let_def strings_Contains_char)

theorem BuildAttackRequest_get_injection_witness:
  "fst (BuildAttackRequest (fixtureConfig ''http://x/y'' 1 1 '''')
          (fixturePools [''P'']) (fixtureEnv 200 5))
     = ''http://x/y?id=P&search=P''
   \<and> fst (BuildAttackRequest (fixtureConfig ''http://x/y?a=1'' 1 1 '''')
          (fixturePools [''P'']) (fixtureEnv 200 5))
     = ''http://x/y?a=1&id=P&search=P''"
proof -
  have p: "GetRandomPayload (fixturePools [''P'']) (rndPayload (fixtureEnv 200 5))
             (GetRandomAttackType (rndAttackType (fixtureEnv 200 5))) = ''P''"
    by (simp add: GetRandomPayload_def GetRandomAttackType_def fixturePools_def fixtureEnv_def
        rand_Intn_def)
  have m: "HTTPMethod (fixtureConfig u 1 1 '''') = ''GET'' \<or> HTTPMethod (fixtureConfig u 1 1 '''') = ''''"
    for u by (simp add: fixtureConfig_def)
  show ?thesis
    using BuildAttackRequest_get_injection [OF m p, of "''http://x/y''"]
      BuildAttackRequest_get_injection [OF m p, of "''http://x/y?a=1''"]
    by (simp add: fixtureConfig_def)
qed

section \<open>Properties of the validation in the streaming handler\<close>

lemma applyDefaults_fields:
  "TrafficType (applyDefaults config)
     = (if TrafficType config = '''' then ''normal'' else TrafficType config)"
  "TestMode (applyDefaults config)
     = (if TestMode config = '''' then ''baseline'' else TestMode config)"
  "HTTPMethod (applyDefaults config)
     = (if HTTPMethod config = '''' then ''GET'' else HTTPMethod config)"
  "TargetURL (applyDefaults config) = TargetURL config"
  "TotalRequests (applyDefaults config) = TotalRequests config"
  "Duration (applyDefaults config) = Duration config"
  "UserAgentType (applyDefaults config) = UserAgentType config"
  by (simp_all add: applyDefaults_def Let_def)

text \<open>
  Claim C9. For a \<open>POST\<close> whose body decodes to a configuration, the handler answers
  400, before anything is started, exactly when the URL is empty, the number of
  requests is outside 1 to 10000, the duration is outside 1 to 3600, or one of traffic
  type, test mode and user agent type is neither empty nor one of its two names.
  Otherwise (the response writer being able to stream) the session is started with the
  configuration in which an empty traffic type, test mode and method have become
  \<open>normal\<close>, \<open>baseline\<close> and \<open>GET\<close>, and nothing else has changed.
\<close>

theorem handleStartTestStream_validation:
  "((\<exists>msg. handleStartTestStream ''POST'' (Inr config) canFlush = HttpError 400 msg)
      \<longleftrightarrow> (TargetURL config = ''''
           \<or> TotalRequests config < 1 \<or> TotalRequests config > 10000
           \<or> Duration config < 1 \<or> Duration config > 3600
           \<or> TrafficType config \<notin> {'''', ''normal'', ''attack''}
           \<or> TestMode config \<notin> {'''', ''baseline'', ''burst''}
           \<or> UserAgentType config \<notin> {'''', ''legitimate'', ''scanner''}))
   \<and> ((\<exists>msg. handleStartTestStream ''POST'' (Inr config) canFlush = HttpError 400 msg)
      \<longleftrightarrow> \<not> config_acceptable config)
   \<and> (config_acceptable config \<longrightarrow>
        handleStartTestStream ''POST'' (Inr config) True = SessionStarted (applyDefaults config)
        \<and> TrafficType (applyDefaults config)
             = (if TrafficType config = '''' then ''normal'' else TrafficType config)
        \<and> TestMode (applyDefaults config)
             = (if TestMode config = '''' then ''baseline'' else TestMode config)
        \<and> HTTPMethod (applyDefaults config)
             = (if HTTPMethod config = '''' then ''GET'' else HTTPMethod config)
        \<and> TargetURL (applyDefaults config) = TargetURL config
        \<and> TotalRequests (applyDefaults config) = TotalRequests config
        \<and> Duration (applyDefaults config) = Duration config)"
  by (auto simp: handleStartTestStream_def config_acceptable_def applyDefaults_fields Let_def)

theorem handleStartTestStream_validation_witness:
  "config_acceptable (fixtureConfig ''http://x/y'' 3 10 '''')
   \<and> handleStartTestStream ''POST'' (Inr (fixtureConfig ''http://x/y'' 3 10 '''')) True
       = SessionStarted (applyDefaults (fixtureConfig ''http://x/y'' 3 10 ''''))
   \<and> TrafficType (applyDefaults (fixtureConfig ''http://x/y'' 3 10 '''')) = ''normal''
   \<and> TestMode (applyDefaults (fixtureConfig ''http://x/y'' 3 10 '''')) = ''baseline''
   \<and> HTTPMethod (applyDefaults (fixtureConfig ''http://x/y'' 3 10 '''')) = ''GET''
   \<and> \<not> config_acceptable (fixtureConfig ''http://x/y'' 10001 10 '''')
   \<and> (\<exists>msg. handleStartTestStream ''POST'' (Inr (fixtureConfig ''http://x/y'' 10001 10 '''')) True
          = HttpError 400 msg)"
proof -
  let ?good = "fixtureConfig ''http://x/y'' 3 10 ''''"
  let ?bad = "fixtureConfig ''http://x/y'' 10001 10 ''''"
  have a: "config_acceptable ?good"
    by (simp add: config_acceptable_def fixtureConfig_def)
  have b: "\<not> config_acceptable ?bad"
    by (simp add: config_acceptable_def fixtureConfig_def)
  have f: "TrafficType ?good = ''''" "TestMode ?good = ''''" "HTTPMethod ?good = ''''"
    by (simp_all add: fixtureConfig_def)
  note good = handleStartTestStream_validation [of ?good True, THEN conjunct2, THEN conjunct2,
      rule_format, OF a]
  note bad = handleStartTestStream_validation [of ?bad True, THEN conjunct2, THEN conjunct1]
  have e: "\<exists>msg. handleStartTestStream ''POST'' (Inr ?bad) True = HttpError 400 msg"
    using b by (rule bad [THEN iffD2])
  have s: "handleStartTestStream ''POST'' (Inr ?good) True = SessionStarted (applyDefaults ?good)"
    using good by (rule conjunct1)
  have d: "TrafficType (applyDefaults ?good) = ''normal''"
    "TestMode (applyDefaults ?good) = ''baseline''"
    "HTTPMethod (applyDefaults ?good) = ''GET''"
    using good f by simp_all
  from a s d b e show ?thesis
    by (intro conjI)
qed

section \<open>Properties of one request\<close>

lemma prepareRequest_fields:
  "ID (snd (snd (snd (prepareRequest i config pools env)))) = i"
  "Status (snd (snd (snd (prepareRequest i config pools env)))) = 0"
  "\<not> WasBlocked (snd (snd (snd (prepareRequest i config pools env))))"
  "ResponseTime (snd (snd (snd (prepareRequest i config pools env)))) = 0"
  by (simp_all add: prepareRequest_def Let_def case_prod_beta)

lemma recordResponse_fields:
  "ID (recordResponse result resp) = ID result"
  "Status (recordResponse result resp) = StatusCode resp"
  "ResponseTime (recordResponse result resp) = ResponseTime result"
  "WasBlocked (recordResponse result resp)
     \<longleftrightarrow> WasBlocked result \<or> StatusCode resp \<in> {403, 406, 429}"
  by (auto simp: recordResponse_def Let_def split: sum.splits)

lemma sendRequest_ID: "ID (sendRequest i config pools env) = i"
  using prepareRequest_fields(1) [of i config pools env]
  by (simp add: sendRequest_def Let_def case_prod_beta recordResponse_fields
      split: option.splits sum.splits)

lemma sendRequest_blocked_iff:
  "WasBlocked (sendRequest i config pools env)
     \<longleftrightarrow> Status (sendRequest i config pools env) \<in> {403, 406, 429}"
  using prepareRequest_fields(3) [of i config pools env]
  by (simp add: sendRequest_def Let_def case_prod_beta recordResponse_fields
      split: option.splits sum.splits)

lemma sendRequest_transport_failure:
  "transport env = Inl err \<Longrightarrow> Status (sendRequest i config pools env) = 0
     \<and> \<not> WasBlocked (sendRequest i config pools env)"
  using prepareRequest_fields(3) [of i config pools env]
  by (simp add: sendRequest_def Let_def case_prod_beta recordResponse_fields
      split: option.splits sum.splits)

lemma sendRequest_response_time:
  "newRequestError env = None \<Longrightarrow> ResponseTime (sendRequest i config pools env) = elapsedMs env"
  by (simp add: sendRequest_def Let_def case_prod_beta recordResponse_fields
      split: option.splits sum.splits)

lemma sendRequest_status:
  "newRequestError env = None \<Longrightarrow> transport env = Inr resp
     \<Longrightarrow> Status (sendRequest i config pools env) = StatusCode resp"
  by (simp add: sendRequest_def Let_def case_prod_beta recordResponse_fields
      split: option.splits sum.splits)

lemma fixtureOutcome_fields:
  "ID (fixtureOutcome i code ms) = i"
  "Status (fixtureOutcome i code ms) = code"
  "ResponseTime (fixtureOutcome i code ms) = ms"
  "WasBlocked (fixtureOutcome i code ms) \<longleftrightarrow> code \<in> {403, 406, 429}"
proof -
  have e: "newRequestError (fixtureEnv code ms) = None"
     "transport (fixtureEnv code ms) = Inr \<lparr>StatusCode = code, StatusCodeText = '''', Header = Map.empty,
                        Body = Inr ''''\<rparr>"
     "elapsedMs (fixtureEnv code ms) = ms"
    by (simp_all add: fixtureEnv_def)
  show "ID (fixtureOutcome i code ms) = i"
    by (simp add: fixtureOutcome_def sendRequest_ID)
  show s: "Status (fixtureOutcome i code ms) = code"
    using sendRequest_status [OF e(1,2)] by (simp add: fixtureOutcome_def)
  show "ResponseTime (fixtureOutcome i code ms) = ms"
    using sendRequest_response_time [OF e(1)] e(3) by (simp add: fixtureOutcome_def)
  show "WasBlocked (fixtureOutcome i code ms) \<longleftrightarrow> code \<in> {403, 406, 429}"
    using s sendRequest_blocked_iff [of i _ _ "fixtureEnv code ms"] by (simp add: fixtureOutcome_def)
qed

section \<open>Properties of the statistics\<close>

lemma statisticsStep_fields:
  "totalResponseTime (statisticsStep req v) = totalResponseTime v + ResponseTime req"
  "responseTimes (statisticsStep req v) = responseTimes v @ [ResponseTime req]"
  "maxResponse (statisticsStep req v) = max (maxResponse v) (ResponseTime req)"
  "minResponse (statisticsStep req v) =
     (if 0 < ResponseTime req then min (minResponse v) (ResponseTime req) else minResponse v)"
  by (simp_all add: statisticsStep_def Let_def max_def min_def)

lemma statisticsLoop_total:
  "totalResponseTime (statisticsLoop reqs v) = totalResponseTime v + sum_list (map ResponseTime reqs)"
  by (induction reqs arbitrary: v) (simp_all add: statisticsStep_fields)

lemma statisticsLoop_times:
  "responseTimes (statisticsLoop reqs v) = responseTimes v @ map ResponseTime reqs"
  by (induction reqs arbitrary: v) (simp_all add: statisticsStep_fields)

lemma Max_insert_max:
  "finite S \<Longrightarrow> Max (insert (max a b) S) = Max (insert a (insert b S))" for a :: int
  by (cases "S = {}") (simp_all add: max.assoc)

lemma Min_insert_min:
  "finite S \<Longrightarrow> Min (insert (min a b) S) = Min (insert a (insert b S))" for a :: int
  by (cases "S = {}") (simp_all add: min.assoc)

lemma positive_times_simps:
  "positive_times [] = {}"
  "positive_times (req # reqs) =
     (if 0 < ResponseTime req then insert (ResponseTime req) (positive_times reqs)
      else positive_times reqs)"
  "finite (positive_times reqs)"
  by (auto simp: positive_times_def)

lemma statisticsLoop_max:
  "maxResponse (statisticsLoop reqs v) = Max (insert (maxResponse v) (set (map ResponseTime reqs)))"
proof (induction reqs arbitrary: v)
  case Nil
  then show ?case by simp
next
  case (Cons req reqs)
  show ?case
    using Cons [of "statisticsStep req v"]
      Max_insert_max [of "set (map ResponseTime reqs)" "maxResponse v" "ResponseTime req"]
    by (simp add: statisticsStep_fields)
qed

lemma statisticsLoop_min:
  "minResponse (statisticsLoop reqs v) = Min (insert (minResponse v) (positive_times reqs))"
proof (induction reqs arbitrary: v)
  case Nil
  then show ?case by (simp add: positive_times_simps)
next
  case (Cons req reqs)
  show ?case
    using Cons [of "statisticsStep req v"]
      Min_insert_min [OF positive_times_simps(3), of "minResponse v" "ResponseTime req" reqs]
    by (simp add: statisticsStep_fields positive_times_simps)
qed

lemma min_with_sentinel:
  fixes S :: "int set"
  assumes "finite S"
  shows "(if Min (insert 999999 {t \<in> S. 0 < t}) = 999999 then 0
          else Min (insert 999999 {t \<in> S. 0 < t}))
       = (if \<exists>t \<in> S. 0 < t \<and> t < 999999 then Min {t \<in> S. 0 < t \<and> t < 999999} else 0)"
proof (cases "\<exists>t \<in> S. 0 < t \<and> t < 999999")
  case True
  let ?Q = "{t \<in> S. 0 < t \<and> t < 999999}"
  let ?P = "{t \<in> S. 0 < t}"
  have finQ: "finite ?Q" and finP: "finite ?P" using assms by auto
  have neQ: "?Q \<noteq> {}" using True by auto
  have inQ: "Min ?Q \<in> ?Q" using Min_in [OF finQ neQ] .
  have "Min (insert 999999 ?P) = Min ?Q"
  proof (rule Min_eqI)
    show "finite (insert 999999 ?P)" using finP by simp
    show "Min ?Q \<in> insert 999999 ?P" using inQ by auto
    fix y assume y: "y \<in> insert 999999 ?P"
    show "Min ?Q \<le> y"
    proof (cases "y < 999999")
      case True
      then have "y \<in> ?Q" using y by auto
      then show ?thesis using finQ by simp
    next
      case False
      then show ?thesis using inQ by auto
    qed
  qed
  moreover have "Min ?Q \<noteq> 999999" using inQ by auto
  ultimately have "(if Min (insert 999999 ?P) = 999999 then 0 else Min (insert 999999 ?P)) = Min ?Q"
    by simp
  also have "Min ?Q = (if \<exists>t \<in> S. 0 < t \<and> t < 999999 then Min ?Q else 0)"
    using True by (simp only: if_True)
  finally show ?thesis .
next
  case False
  let ?P = "{t \<in> S. 0 < t}"
  have finP: "finite ?P" using assms by auto
  have "Min (insert 999999 ?P) = 999999"
  proof (rule Min_eqI)
    show "finite (insert 999999 ?P)" using finP by simp
    show "999999 \<in> insert 999999 ?P" by simp
    fix y assume "y \<in> insert 999999 ?P"
    then show "999999 \<le> y" using False by auto
  qed
  then have "(if Min (insert 999999 ?P) = 999999 then 0 else Min (insert 999999 ?P)) = 0"
    by simp
  also have "0 = (if \<exists>t \<in> S. 0 < t \<and> t < 999999 then Min {t \<in> S. 0 < t \<and> t < 999999} else 0)"
    using False by (simp only: if_False)
  finally show ?thesis .
qed

lemma calculateStatistics_total: "\<exists>res. calculateStatistics result = Inr res"
proof -
  obtain p50 p95 p99 where
    "calculateResponseTimePercentiles (responseTimes (statisticsOf (Requests result))) = Inr (p50, p95, p99)"
    using calculateResponseTimePercentiles_ok by blast
  then show ?thesis
    by (simp add: calculateStatistics_def Let_def statisticsOf_def)
qed

lemma calculateStatistics_Inr:
  assumes "calculateStatistics result = Inr res"
  shows "AvgResponse res = (if ResultTotal result > 0
           then go_quot (totalResponseTime (statisticsOf (Requests result))) (ResultTotal result)
           else AvgResponse result)"
    and "MinResponse res = (if minResponse (statisticsOf (Requests result)) = 999999 then 0
           else minResponse (statisticsOf (Requests result)))"
    and "MaxResponse res = maxResponse (statisticsOf (Requests result))"
    and "Requests res = Requests result"
    and "ResultTotal res = ResultTotal result"
    and "RateLimitHit res = RateLimitHit result"
    and "RateLimitAt res = RateLimitAt result"
    and "TestID res = TestID result"
  using assms
  by (auto simp: calculateStatistics_def Let_def statisticsOf_def split: sum.splits prod.splits if_splits)

lemma buildFinalResult_fields:
  assumes "requests \<noteq> []"
  shows "\<exists>res. buildFinalResult testID requests = Inr res
     \<and> AvgResponse res = go_quot (sum_list (map ResponseTime requests)) (int (length requests))
     \<and> MinResponse res = (if Min (insert 999999 (positive_times requests)) = 999999 then 0
                            else Min (insert 999999 (positive_times requests)))
     \<and> MaxResponse res = Max (insert 0 (set (map ResponseTime requests)))
     \<and> Requests res = requests \<and> ResultTotal res = int (length requests)
     \<and> RateLimitHit res = False \<and> RateLimitAt res = 0 \<and> TestID res = testID"
proof -
  let ?r = "(emptyResult testID)\<lparr>Requests := requests, ResultTotal := int (length requests)\<rparr>"
  have b: "buildFinalResult testID requests = calculateStatistics ?r"
    by (simp add: buildFinalResult_def Let_def)
  obtain res where res: "calculateStatistics ?r = Inr res"
    using calculateStatistics_total by blast
  have f: "Requests ?r = requests" "ResultTotal ?r = int (length requests)"
    "RateLimitHit ?r = False" "RateLimitAt ?r = 0" "TestID ?r = testID"
    by (simp_all add: emptyResult_def)
  have pos: "ResultTotal ?r > 0" using assms f(2) by simp
  have t: "totalResponseTime (statisticsOf requests) = sum_list (map ResponseTime requests)"
    by (simp add: statisticsOf_def statisticsLoop_total)
  have mx: "maxResponse (statisticsOf requests) = Max (insert 0 (set (map ResponseTime requests)))"
    by (simp add: statisticsOf_def statisticsLoop_max)
  have mn: "minResponse (statisticsOf requests) = Min (insert 999999 (positive_times requests))"
    by (simp add: statisticsOf_def statisticsLoop_min)
  note c = calculateStatistics_Inr [OF res]
  have "AvgResponse res = go_quot (sum_list (map ResponseTime requests)) (int (length requests))"
    using c(1) pos unfolding f t by simp
  moreover have "MinResponse res = (if Min (insert 999999 (positive_times requests)) = 999999 then 0
                            else Min (insert 999999 (positive_times requests)))"
    using c(2) unfolding f mn .
  moreover have "MaxResponse res = Max (insert 0 (set (map ResponseTime requests)))"
    using c(3) unfolding f mx .
  ultimately show ?thesis
    using b res c(4-8) f by simp
qed

text \<open>
  Claim C6. A response time is the elapsed time of one request, measured in
  milliseconds under the 30 second timeout of the client, or 0 for a request that
  could not be built: it lies between 0 and 999998, below the value 999999 from which
  the loop of \<open>calculateStatistics\<close> starts its minimum. For every non-empty list of
  such outcomes the final result is computed; its average is the sum of all response
  times divided by their number, by integer division; its minimum is the least
  response time strictly greater than 0, or 0 when no outcome has a positive response
  time; its maximum is the maximum over all outcomes, those with response time 0
  included.
\<close>

theorem buildFinalResult_statistics:
  assumes "requests \<noteq> []"
    and "\<forall>t \<in> set (map ResponseTime requests). 0 \<le> t \<and> t < 999999"
  shows "\<exists>res. buildFinalResult testID requests = Inr res
     \<and> AvgResponse res = sum_list (map ResponseTime requests) div int (length requests)
     \<and> MinResponse res =
          (if \<exists>t \<in> set (map ResponseTime requests). 0 < t
           then Min {t \<in> set (map ResponseTime requests). 0 < t} else 0)
     \<and> MaxResponse res = Max (set (map ResponseTime requests))"
proof -
  define T where "T = set (map ResponseTime requests)"
  have finT: "finite T" and neT: "T \<noteq> {}" using assms(1) by (auto simp: T_def)
  have h: "\<forall>t \<in> T. 0 \<le> t \<and> t < 999999" using assms(2) by (simp add: T_def)
  obtain res where res: "buildFinalResult testID requests = Inr res"
    and avg: "AvgResponse res = go_quot (sum_list (map ResponseTime requests)) (int (length requests))"
    and mn: "MinResponse res = (if Min (insert 999999 (positive_times requests)) = 999999 then 0
                            else Min (insert 999999 (positive_times requests)))"
    and mx: "MaxResponse res = Max (insert 0 T)"
    using buildFinalResult_fields [OF assms(1)] unfolding T_def by blast
  have mn': "MinResponse res = (if \<exists>t \<in> T. 0 < t \<and> t < 999999
           then Min {t \<in> T. 0 < t \<and> t < 999999} else 0)"
    using mn min_with_sentinel [OF finT] unfolding positive_times_def T_def by simp
  have "0 \<le> sum_list (map ResponseTime requests)"
    using h unfolding T_def by (intro sum_list_nonneg) auto
  moreover have "0 < int (length requests)" using assms(1) by simp
  ultimately have a: "AvgResponse res = sum_list (map ResponseTime requests) div int (length requests)"
    using avg by (simp add: go_quot_nonneg)
  have "{t \<in> T. 0 < t \<and> t < 999999} = {t \<in> T. 0 < t}" using h by auto
  moreover have "(\<exists>t \<in> T. 0 < t \<and> t < 999999) \<longleftrightarrow> (\<exists>t \<in> T. 0 < t)" using h by auto
  ultimately have m: "MinResponse res = (if \<exists>t \<in> T. 0 < t then Min {t \<in> T. 0 < t} else 0)"
    using mn' by simp
  have "0 \<le> Max T" using h finT neT by (meson Max_in)
  then have "Max (insert 0 T) = Max T" using finT neT by simp
  then have x: "MaxResponse res = Max T" using mx by simp
  show ?thesis
    using res a m x unfolding T_def by blast
qed

lemma fixture_times: "map ResponseTime [fixtureOutcome 1 200 12, fixtureOutcome 2 0 0, fixtureOutcome 3 429 7]
    = [12, 0, 7]"
  by (simp add: fixtureOutcome_fields)

theorem buildFinalResult_statistics_witness:
  "[fixtureOutcome 1 200 12, fixtureOutcome 2 0 0, fixtureOutcome 3 429 7] \<noteq> []
   \<and> map ResponseTime [fixtureOutcome 1 200 12, fixtureOutcome 2 0 0, fixtureOutcome 3 429 7]
       = [12, 0, 7]
   \<and> (\<exists>res. buildFinalResult ''t'' [fixtureOutcome 1 200 12, fixtureOutcome 2 0 0, fixtureOutcome 3 429 7]
                = Inr res
          \<and> AvgResponse res = 6 \<and> MinResponse res = 7 \<and> MaxResponse res = 12)"
proof -
  let ?reqs = "[fixtureOutcome 1 200 12, fixtureOutcome 2 0 0, fixtureOutcome 3 429 7]"
  have ne: "?reqs \<noteq> []" by simp
  have b: "\<forall>t \<in> set (map ResponseTime ?reqs). 0 \<le> t \<and> t < 999999"
    unfolding fixture_times by simp
  have s: "{t \<in> set [12, 0, 7::int]. 0 < t} = {12, 7}" by auto
  obtain res where r: "buildFinalResult ''t'' ?reqs = Inr res"
    "AvgResponse res = sum_list (map ResponseTime ?reqs) div int (length ?reqs)"
    "MinResponse res = (if \<exists>t \<in> set (map ResponseTime ?reqs). 0 < t
               then Min {t \<in> set (map ResponseTime ?reqs). 0 < t} else 0)"
    "MaxResponse res = Max (set (map ResponseTime ?reqs))"
    using buildFinalResult_statistics [OF ne b, of "''t''"] by blast
  have "AvgResponse res = 6" using r(2) unfolding fixture_times by simp
  moreover have "MinResponse res = 7" using r(3) unfolding fixture_times s by simp
  moreover have "MaxResponse res = 12" using r(4) unfolding fixture_times by simp
  ultimately show ?thesis using ne fixture_times r(1) by blast
qed

section \<open>Properties of the synchronous test\<close>

declare runTestLoop.simps [simp del]

lemma runTestLoop_ids:
  "map ID (Requests (runTestLoop config pools world i result))
     = map ID (Requests result) @ [i..TotalRequests config]"
proof (induction config pools world i result rule: runTestLoop.induct)
  case (1 config pools world i result)
  show ?case
  proof (cases "i \<le> TotalRequests config")
    case True
    have u: "[i..TotalRequests config] = i # [i + 1..TotalRequests config]"
      using True by (simp add: upto_rec1)
    show ?thesis
      using True "1.IH" [OF True refl refl refl]
      by (subst runTestLoop.simps) (simp add: Let_def u sendRequest_ID)
  next
    case False
    then show ?thesis by (subst runTestLoop.simps) simp
  qed
qed

lemma runTestLoop_requests:
  "Requests (runTestLoop config pools world i result)
     = Requests result @ map (\<lambda>j. sendRequest j config pools (world j)) [i..TotalRequests config]"
proof (induction config pools world i result rule: runTestLoop.induct)
  case (1 config pools world i result)
  show ?case
  proof (cases "i \<le> TotalRequests config")
    case True
    have u: "[i..TotalRequests config] = i # [i + 1..TotalRequests config]"
      using True by (simp add: upto_rec1)
    show ?thesis
      using True "1.IH" [OF True refl refl refl]
      by (subst runTestLoop.simps) (simp add: Let_def u)
  next
    case False
    then show ?thesis by (subst runTestLoop.simps) simp
  qed
qed

lemma runTestLoop_TestID: "TestID (runTestLoop config pools world i result) = TestID result"
proof (induction config pools world i result rule: runTestLoop.induct)
  case (1 config pools world i result)
  show ?case
  proof (cases "i \<le> TotalRequests config")
    case True
    show ?thesis
      using True "1.IH" [OF True refl refl refl]
      by (subst runTestLoop.simps) (simp add: Let_def)
  next
    case False
    then show ?thesis by (subst runTestLoop.simps) simp
  qed
qed

lemma find_append: "find P (xs @ ys) = (case find P xs of None \<Rightarrow> find P ys | Some x \<Rightarrow> Some x)"
  by (induction xs) auto

lemma runTestLoop_firstBlocked:
  "firstBlocked result \<Longrightarrow> firstBlocked (runTestLoop config pools world i result)"
proof (induction config pools world i result rule: runTestLoop.induct)
  case (1 config pools world i result)
  show ?case
  proof (cases "i \<le> TotalRequests config")
    case True
    let ?r = "sendRequest i config pools (world i)"
    let ?res1 = "result\<lparr>Requests := Requests result @ [?r]\<rparr>"
    let ?res2 = "if WasBlocked ?r \<and> \<not> RateLimitHit ?res1
                 then ?res1\<lparr>RateLimitHit := True, RateLimitAt := i\<rparr> else ?res1"
    have "firstBlocked ?res2"
      using "1.prems"
      by (auto simp: firstBlocked_def find_append sendRequest_ID split: option.splits)
    then have "firstBlocked (runTestLoop config pools world (i + 1) ?res2)"
      using "1.IH" [OF True refl refl refl] by (simp add: Let_def)
    then show ?thesis
      using True by (subst runTestLoop.simps) (simp add: Let_def)
  next
    case False
    then show ?thesis using "1.prems" by (subst runTestLoop.simps) simp
  qed
qed

lemma RunTest_result:
  assumes "1 \<le> TotalRequests config"
  shows "\<exists>res. RunTest config pools world testID = Inr res
     \<and> ResultTotal res = TotalRequests config
     \<and> map ID (Requests res) = [1..TotalRequests config]
     \<and> Requests res = produced config pools world (TotalRequests config)
     \<and> firstBlocked res"
proof -
  let ?loop = "runTestLoop config pools world 1 (emptyResult testID)"
  let ?r = "?loop\<lparr>ResultTotal := int (length (Requests ?loop))\<rparr>"
  have n: "TotalRequests config \<noteq> 0" using assms by simp
  have run: "RunTest config pools world testID = calculateStatistics ?r"
    using n by (simp add: RunTest_def go_div_def Let_def)
  obtain res where res: "calculateStatistics ?r = Inr res"
    using calculateStatistics_total by blast
  note c = calculateStatistics_Inr [OF res]
  have ids: "map ID (Requests ?loop) = [1..TotalRequests config]"
    using runTestLoop_ids [of config pools world 1 "emptyResult testID"]
    by (simp add: emptyResult_def)
  have "length (Requests ?loop) = length [1..TotalRequests config]"
    using ids by (metis length_map)
  then have len: "int (length (Requests ?loop)) = TotalRequests config"
    using assms by simp
  have "firstBlocked (emptyResult testID)"
    by (simp add: firstBlocked_def emptyResult_def)
  then have fb: "firstBlocked ?loop" by (rule runTestLoop_firstBlocked)
  have "firstBlocked res"
    using fb c(4,6,7) by (auto simp: firstBlocked_def split: option.splits)
  moreover have "Requests ?loop = produced config pools world (TotalRequests config)"
    using runTestLoop_requests [of config pools world 1 "emptyResult testID"]
    by (simp add: emptyResult_def produced_def)
  ultimately show ?thesis
    using run res c(4,5) ids len by simp
qed

section \<open>Properties of the streaming test\<close>

lemma length_produced: "length (produced config pools world k) = nat k"
  by (simp add: produced_def)

lemma produced_snoc:
  "1 \<le> i \<Longrightarrow> produced config pools world i
     = produced config pools world (i - 1) @ [sendRequest i config pools (world i)]"
  by (simp add: produced_def upto_rec2)

lemma produced_ids: "map ID (produced config pools world k) = [1..k]"
  by (simp add: produced_def sendRequest_ID comp_def)

lemma collectorInv_update [simp]:
  "collectorInv config pools world testID (s\<lparr>producer := p\<rparr>) c
     = collectorInv config pools world testID s c"
  "collectorInv config pools world testID (s\<lparr>resultsChan := ch\<rparr>) c
     = collectorInv config pools world testID s c"
  "collectorInv config pools world testID (s\<lparr>resultsClosed := b\<rparr>) c
     = collectorInv config pools world testID s c"
  by (cases c; simp)+

lemma producerStep_inv:
  assumes n: "1 \<le> TotalRequests config" and inv: "streamInv config pools world testID s"
  shows "streamInv config pools world testID (producerStep config pools world preferDone s)"
proof (cases "producer s")
  case (ProducerLoop i)
  show ?thesis
  proof (cases "i \<le> TotalRequests config")
    case True
    then show ?thesis
      using inv n ProducerLoop unfolding streamInv_def producerStep_def producerReturn_def
      by simp
  next
    case False
    then have "i = TotalRequests config + 1"
      using inv ProducerLoop unfolding streamInv_def by simp
    then show ?thesis
      using inv n ProducerLoop unfolding streamInv_def producerStep_def producerReturn_def
      by simp
  qed
next
  case (ProducerEnqueue i r)
  then show ?thesis
    using inv n produced_snoc [of i config pools world]
    unfolding streamInv_def producerStep_def producerReturn_def Let_def
    by (cases "length (resultsChan s) < resultsCap"; cases "i < TotalRequests config") simp_all
next
  case (ProducerWait i)
  then show ?thesis
    using inv n unfolding streamInv_def producerStep_def producerReturn_def
    by simp
next
  case ProducerReturned
  then show ?thesis using inv by (simp add: producerStep_def)
qed


lemma sentCount_bounds:
  "1 \<le> n \<Longrightarrow> n = TotalRequests config \<Longrightarrow> producerInv config pools world p
     \<Longrightarrow> 0 \<le> sentCount n p \<and> sentCount n p \<le> n"
  by (cases p) auto

lemma buildFinalResult_total: "\<exists>res. buildFinalResult testID reqs = Inr res"
  using calculateStatistics_total by (simp add: buildFinalResult_def Let_def)

lemma collectorFinish_eq:
  "\<exists>final. buildFinalResult testID (allRequests s) = Inr final
     \<and> collectorFinish config testID s
         = s\<lparr>progressChan := progressChan s @ [completeUpdate config testID final],
              collector := CollectorReturned\<rparr>"
proof -
  obtain final where "buildFinalResult testID (allRequests s) = Inr final"
    using buildFinalResult_total by blast
  then show ?thesis
    by (simp add: collectorFinish_def completeUpdate_def)
qed

lemma collectorBatch_eq:
  "TotalRequests config \<noteq> 0 \<Longrightarrow>
   \<exists>u. collectorBatch config testID s
         = Inr (s\<lparr>progressChan := progressChan s @ [u], batchRequests := []\<rparr>)"
  by (simp add: collectorBatch_def go_div_def Let_def) (rule exI, rule refl)

lemma collectorStep_inv:
  assumes n: "1 \<le> TotalRequests config" and inv: "streamInv config pools world testID s"
  shows "streamInv config pools world testID (collectorStep config testID secondPassed s)"
proof (cases "collector s = Collecting")
  case False
  then show ?thesis using inv by (simp add: collectorStep_def)
next
  case coll: True
  let ?N = "TotalRequests config"
  let ?k = "sentCount ?N (producer s)"
  from inv have nd: "\<not> ctxDone s"
    and pinv: "producerInv config pools world (producer s)"
    and chan: "allRequests s @ resultsChan s = produced config pools world ?k"
    and cnt: "completedCount s = int (length (allRequests s))"
    and closed: "resultsClosed s \<longleftrightarrow> producer s = ProducerReturned"
    and cinv: "int (length (allRequests s)) < ?N"
    using coll by (simp_all add: streamInv_def)
  have kb: "0 \<le> ?k" "?k \<le> ?N" using sentCount_bounds [OF n refl pinv] by simp_all
  have len: "length (allRequests s) + length (resultsChan s) = nat ?k"
    using chan length_produced [of config pools world ?k] by (metis length_append)
  show ?thesis
  proof (cases "resultsChan s")
    case Nil
    show ?thesis
    proof (cases "resultsClosed s")
      case True
      then have "?k = ?N" using closed by simp
      then have False using len Nil cinv n by simp
      then show ?thesis ..
    next
      case False
      then show ?thesis using inv coll Nil by (simp add: collectorStep_def)
    qed
  next
    case (Cons r rest)
    define s1 where "s1 = s\<lparr>resultsChan := rest, completedCount := completedCount s + 1,
                    allRequests := allRequests s @ [r],
                    batchRequests := batchRequests s @ [r]\<rparr>"
    define isComplete where "isComplete \<longleftrightarrow> completedCount s1 \<ge> ?N"
    have step: "collectorStep config testID secondPassed s =
        (case (if secondPassed \<or> isComplete then collectorBatch config testID s1 else Inr s1) of
           Inl e \<Rightarrow> s1\<lparr>collector := CollectorPanicked e\<rparr>
         | Inr s2 \<Rightarrow> (if isComplete then collectorFinish config testID s2 else s2))"
      unfolding s1_def isComplete_def using coll Cons nd
      by (simp add: collectorStep_def Let_def cong: sum.case_cong)
    have ic: "isComplete \<longleftrightarrow> int (length (allRequests s)) + 1 \<ge> ?N"
      by (simp add: isComplete_def s1_def cnt)
    obtain u where u: "collectorBatch config testID s1
         = Inr (s1\<lparr>progressChan := progressChan s1 @ [u], batchRequests := []\<rparr>)"
      using collectorBatch_eq [of config testID s1] n by auto
    define s2 where "s2 = (if secondPassed \<or> isComplete
        then s1\<lparr>progressChan := progressChan s1 @ [u], batchRequests := []\<rparr> else s1)"
    have step2: "collectorStep config testID secondPassed s
        = (if isComplete then collectorFinish config testID s2 else s2)"
      unfolding step s2_def using u by simp
    have s2f: "ctxDone s2 = ctxDone s" "producer s2 = producer s" "resultsChan s2 = rest"
      "resultsClosed s2 = resultsClosed s" "allRequests s2 = allRequests s @ [r]"
      "completedCount s2 = completedCount s + 1" "collector s2 = collector s"
      by (simp_all add: s2_def s1_def)
    have chan2: "allRequests s2 @ resultsChan s2 = produced config pools world ?k"
      using chan Cons by (simp add: s2f)
    show ?thesis
    proof (cases isComplete)
      case False
      then have "int (length (allRequests s2)) < ?N" using ic by (simp add: s2f)
      then show ?thesis
        unfolding step2 using False nd pinv chan2 cnt closed coll
        by (simp add: streamInv_def s2f)
    next
      case True
      obtain final where fin: "buildFinalResult testID (allRequests s2) = Inr final"
        and cf: "collectorFinish config testID s2
          = s2\<lparr>progressChan := progressChan s2 @ [completeUpdate config testID final],
              collector := CollectorReturned\<rparr>"
        using collectorFinish_eq [of testID s2 config] by blast
      have "int (length (allRequests s2)) \<ge> ?N" using True ic by (simp add: s2f)
      moreover have "length (allRequests s2) + length rest = nat ?k"
        using len Cons by (simp add: s2f)
      ultimately have "int (length rest) = 0 \<and> ?k = ?N" using kb by linarith
      then have "rest = []" "?k = ?N" by simp_all
      then have all2: "allRequests s2 = produced config pools world ?N"
        using chan2 by (simp add: s2f)
      define s3 where "s3 = s2\<lparr>progressChan := progressChan s2 @ [completeUpdate config testID final],
              collector := CollectorReturned\<rparr>"
      have s3f: "ctxDone s3 = ctxDone s" "producer s3 = producer s" "resultsChan s3 = rest"
        "resultsClosed s3 = resultsClosed s" "allRequests s3 = allRequests s2"
        "completedCount s3 = completedCount s + 1" "collector s3 = CollectorReturned"
        "progressChan s3 = progressChan s2 @ [completeUpdate config testID final]"
        by (simp_all add: s3_def s2f)
      have i1: "\<not> ctxDone s3" unfolding s3f using nd .
      have i2: "producerInv config pools world (producer s3)" unfolding s3f using pinv .
      have i3: "allRequests s3 @ resultsChan s3
          = produced config pools world (sentCount ?N (producer s3))"
        unfolding s3f using chan2 unfolding s2f .
      have i4: "completedCount s3 = int (length (allRequests s3))"
        unfolding s3f s2f using cnt by simp
      have i5: "resultsClosed s3 \<longleftrightarrow> producer s3 = ProducerReturned"
        unfolding s3f using closed .
      have i6: "collectorInv config pools world testID s3 (collector s3)"
        unfolding s3f(7) collectorInv.simps s3f(5,8) fin using all2 by simp
      show ?thesis
        unfolding step2 cf s3_def [symmetric] streamInv_def
        using True i1 i2 i3 i4 i5 i6 by simp
    qed
  qed
qed

lemma step_inv:
  assumes "1 \<le> TotalRequests config" "streamInv config pools world testID s" "a \<noteq> Cancel"
  shows "streamInv config pools world testID (step config pools world testID a s)"
  using assms producerStep_inv collectorStep_inv by (cases a) (simp_all add: step_def)

lemma runSchedule_inv:
  assumes "1 \<le> TotalRequests config" "Cancel \<notin> set schedule"
    "streamInv config pools world testID s"
  shows "streamInv config pools world testID (runSchedule config pools world testID schedule s)"
  using assms(2,3)
proof (induction schedule arbitrary: s)
  case Nil
  then show ?case by simp
next
  case (Cons a schedule)
  have a: "a \<noteq> Cancel" and rest: "Cancel \<notin> set schedule"
    using Cons.prems(1) by auto
  have "streamInv config pools world testID (step config pools world testID a s)"
    by (rule step_inv [OF assms(1) Cons.prems(2) a])
  then show ?case using Cons.IH [OF rest] by simp
qed

lemma RunTestStreaming_inv:
  assumes "1 \<le> TotalRequests config"
  shows "streamInv config pools world testID (RunTestStreaming config testID)"
proof -
  have "TotalRequests config \<noteq> 0" using assms by simp
  then have "calculateInterval config =
      Inr (if TestMode config = ''burst''
           then go_wrap (go_quot (go_mul (go_quot (Duration config) 2) 1000) (TotalRequests config))
           else go_wrap (go_quot (go_mul (Duration config) 1000) (TotalRequests config)))"
    by (simp add: calculateInterval_def go_div_def Let_def)
  then show ?thesis
    using assms by (simp add: RunTestStreaming_def streamInv_def produced_def Let_def)
qed

lemma streamingSession_complete:
  assumes n: "1 \<le> TotalRequests config" and nc: "Cancel \<notin> set schedule"
    and ret: "collector (streamingSession config pools world testID schedule) = CollectorReturned"
  shows "\<exists>final. progressChan (streamingSession config pools world testID schedule) \<noteq> []
     \<and> last (progressChan (streamingSession config pools world testID schedule))
         = completeUpdate config testID final
     \<and> allRequests (streamingSession config pools world testID schedule)
         = produced config pools world (TotalRequests config)
     \<and> buildFinalResult testID (allRequests (streamingSession config pools world testID schedule))
         = Inr final
     \<and> ResultTotal final = TotalRequests config
     \<and> map ID (Requests final) = [1..TotalRequests config]
     \<and> \<not> RateLimitHit final \<and> RateLimitAt final = 0"
proof -
  let ?s = "streamingSession config pools world testID schedule"
  have inv: "streamInv config pools world testID ?s"
    unfolding streamingSession_def
    by (rule runSchedule_inv [OF n nc RunTestStreaming_inv [OF n]])
  then have "collectorInv config pools world testID ?s (collector ?s)"
    unfolding streamInv_def by blast
  then have ci: "collectorInv config pools world testID ?s CollectorReturned"
    unfolding ret .
  obtain final where fin: "buildFinalResult testID (allRequests ?s) = Inr final"
    using buildFinalResult_total by blast
  have all: "allRequests ?s = produced config pools world (TotalRequests config)"
    and ne: "progressChan ?s \<noteq> []"
    and ms: "map_sum id (completeUpdate config testID) (buildFinalResult testID (allRequests ?s))
          = Inr (last (progressChan ?s))"
    using ci unfolding collectorInv.simps by blast+
  have lst: "last (progressChan ?s) = completeUpdate config testID final"
    using ms unfolding fin by simp
  have pne: "produced config pools world (TotalRequests config) \<noteq> []"
    using n length_produced [of config pools world "TotalRequests config"] by auto
  obtain res where res: "buildFinalResult testID (produced config pools world (TotalRequests config)) = Inr res"
    "Requests res = produced config pools world (TotalRequests config)"
    "ResultTotal res = int (length (produced config pools world (TotalRequests config)))"
    "RateLimitHit res = False" "RateLimitAt res = 0"
    using buildFinalResult_fields [OF pne, of testID] by blast
  have "res = final" using res(1) fin all by simp
  then show ?thesis
    using ne lst res n fin all by (simp add: produced_ids length_produced)
qed

lemma runSchedule_append:
  "runSchedule config pools world testID (xs @ ys) s
     = runSchedule config pools world testID ys (runSchedule config pools world testID xs s)"
  by (induction xs arbitrary: s) simp_all

lemma roundRobin_Suc:
  "roundRobin (Suc n) = roundRobin n @ [Producer False, Producer False, Producer False, Collector False]"
  unfolding roundRobin_def by (induction n) simp_all

lemma roundRobin_no_cancel: "Cancel \<notin> set (roundRobin n)"
  by (induction n) (simp_all add: roundRobin_def)

lemma collectorStep_last:
  assumes "collector s = Collecting" "resultsChan s = r # rest" "\<not> ctxDone s"
    "TotalRequests config \<noteq> 0" "TotalRequests config \<le> completedCount s + 1"
  shows "collector (collectorStep config testID secondPassed s) = CollectorReturned"
proof -
  define s1 where "s1 = s\<lparr>resultsChan := rest, completedCount := completedCount s + 1,
                    allRequests := allRequests s @ [r],
                    batchRequests := batchRequests s @ [r]\<rparr>"
  obtain u where u: "collectorBatch config testID s1
         = Inr (s1\<lparr>progressChan := progressChan s1 @ [u], batchRequests := []\<rparr>)"
    using collectorBatch_eq [OF assms(4)] by blast
  define s2 where "s2 = s1\<lparr>progressChan := progressChan s1 @ [u], batchRequests := []\<rparr>"
  have "collectorStep config testID secondPassed s = collectorFinish config testID s2"
    unfolding s2_def using assms u unfolding s1_def
    by (simp add: collectorStep_def Let_def cong: sum.case_cong)
  then show ?thesis
    using collectorFinish_eq [of testID s2 config] by auto
qed

lemma round_quiet:
  assumes n: "1 \<le> TotalRequests config" and k: "0 \<le> k" "k + 1 < TotalRequests config"
    and q: "quiet s k"
  shows "quiet (runSchedule config pools world testID
                  [Producer False, Producer False, Producer False, Collector False] s) (k + 1)"
  using assms unfolding quiet_def
  by (simp add: step_def producerStep_def collectorStep_def Let_def resultsCap_def)

lemma round_last:
  assumes n: "1 \<le> TotalRequests config" and k: "0 \<le> k" "k + 1 = TotalRequests config"
    and q: "quiet s k"
  shows "collector (runSchedule config pools world testID
                  [Producer False, Producer False, Producer False, Collector False] s)
           = CollectorReturned"
proof -
  let ?r = "sendRequest (k + 1) config pools (world (k + 1))"
  let ?s3 = "runSchedule config pools world testID [Producer False, Producer False, Producer False] s"
  have s3: "collector ?s3 = Collecting" "resultsChan ?s3 = [?r]" "\<not> ctxDone ?s3"
    "completedCount ?s3 = k"
    using assms unfolding quiet_def
    by (simp_all add: step_def producerStep_def producerReturn_def Let_def resultsCap_def)
  have "collector (collectorStep config testID False ?s3) = CollectorReturned"
    using collectorStep_last [OF s3(1,2,3)] n k s3(4) by simp
  then show ?thesis by (simp add: step_def)
qed

lemma roundRobin_quiet:
  assumes n: "1 \<le> TotalRequests config"
  shows "int m < TotalRequests config
     \<Longrightarrow> quiet (streamingSession config pools world testID (roundRobin m)) (int m)"
proof (induction m)
  case 0
  have "TotalRequests config \<noteq> 0" using n by simp
  then have "calculateInterval config =
      Inr (if TestMode config = ''burst''
           then go_wrap (go_quot (go_mul (go_quot (Duration config) 2) 1000) (TotalRequests config))
           else go_wrap (go_quot (go_mul (Duration config) 1000) (TotalRequests config)))"
    by (simp add: calculateInterval_def go_div_def Let_def)
  then show ?case
    by (simp add: streamingSession_def roundRobin_def RunTestStreaming_def quiet_def Let_def)
next
  case (Suc m)
  then have q: "quiet (streamingSession config pools world testID (roundRobin m)) (int m)"
    by simp
  have k: "0 \<le> int m" "int m + 1 < TotalRequests config" using Suc.prems by simp_all
  show ?case
    using round_quiet [OF n k q]
    by (simp add: streamingSession_def roundRobin_Suc runSchedule_append add.commute)
qed

lemma roundRobin_completes:
  assumes n: "1 \<le> TotalRequests config"
  shows "collector (streamingSession config pools world testID
                      (roundRobin (nat (TotalRequests config)))) = CollectorReturned"
proof -
  obtain m where m: "nat (TotalRequests config) = Suc m"
    using n by (metis Suc_pred' zero_less_nat_eq zero_less_one_class.zero_le_one order_less_le_trans
        less_le_not_le zero_less_one)
  have lt: "int m < TotalRequests config" using m by linarith
  have q: "quiet (streamingSession config pools world testID (roundRobin m)) (int m)"
    by (rule roundRobin_quiet [OF n lt])
  have k: "0 \<le> int m" "int m + 1 = TotalRequests config" using m n by linarith+
  show ?thesis
    unfolding m using round_last [OF n k q]
    by (simp add: streamingSession_def roundRobin_Suc runSchedule_append)
qed

text \<open>
  Claim C1. With at least one request configured, \<open>RunTest\<close> returns a result whose
  total is the number of requests and whose outcomes carry the sequence numbers 1 to
  that number in order. A streaming session that is not cancelled and whose collector
  has returned ends with the \<open>complete\<close> update, whose final result is
  \<open>buildFinalResult\<close> over the collected outcomes and has the same total and the same
  sequence numbers. Such sessions exist for every number of requests: the round-robin
  schedule runs the session to completion.
\<close>

theorem completed_session_outcomes:
  assumes "1 \<le> TotalRequests config"
  shows "(\<exists>res. RunTest config pools world testID = Inr res
            \<and> ResultTotal res = TotalRequests config
            \<and> map ID (Requests res) = [1..TotalRequests config])
     \<and> (Cancel \<notin> set schedule
          \<and> collector (streamingSession config pools world testID schedule) = CollectorReturned
        \<longrightarrow> (\<exists>final.
               last (progressChan (streamingSession config pools world testID schedule))
                 = completeUpdate config testID final
             \<and> buildFinalResult testID
                   (allRequests (streamingSession config pools world testID schedule))
                 = Inr final
             \<and> ResultTotal final = TotalRequests config
             \<and> map ID (Requests final) = [1..TotalRequests config]))
     \<and> Cancel \<notin> set (roundRobin (nat (TotalRequests config)))
     \<and> collector (streamingSession config pools world testID
                     (roundRobin (nat (TotalRequests config)))) = CollectorReturned"
proof -
  have sync: "\<exists>res. RunTest config pools world testID = Inr res
            \<and> ResultTotal res = TotalRequests config
            \<and> map ID (Requests res) = [1..TotalRequests config]"
    using RunTest_result [OF assms] by blast
  have stream: "\<exists>final.
               last (progressChan (streamingSession config pools world testID schedule))
                 = completeUpdate config testID final
             \<and> buildFinalResult testID
                   (allRequests (streamingSession config pools world testID schedule))
                 = Inr final
             \<and> ResultTotal final = TotalRequests config
             \<and> map ID (Requests final) = [1..TotalRequests config]"
    if "Cancel \<notin> set schedule"
      "collector (streamingSession config pools world testID schedule) = CollectorReturned"
    using streamingSession_complete [OF assms that] by blast
  show ?thesis
    using sync stream roundRobin_no_cancel roundRobin_completes [OF assms] by blast
qed

lemma fixtureConfig_fields:
  "TotalRequests (fixtureConfig url n d mode) = n"
  "Duration (fixtureConfig url n d mode) = d"
  "TestMode (fixtureConfig url n d mode) = mode"
  by (simp_all add: fixtureConfig_def)

lemma upto_1_3: "[1..3] = [1, 2, 3 :: int]"
  by (simp add: upto_rec1)

theorem completed_session_outcomes_witness:
  "1 \<le> TotalRequests (fixtureConfig ''http://x/y'' 3 10 '''')
   \<and> Cancel \<notin> set (roundRobin 3)
   \<and> collector (streamingSession (fixtureConfig ''http://x/y'' 3 10 '''') (fixturePools [])
                   (fixtureWorld 200 5) ''test_1'' (roundRobin 3)) = CollectorReturned
   \<and> (\<exists>res. RunTest (fixtureConfig ''http://x/y'' 3 10 '''') (fixturePools [])
                 (fixtureWorld 200 5) ''test_1'' = Inr res
          \<and> ResultTotal res = 3 \<and> map ID (Requests res) = [1, 2, 3])
   \<and> (\<exists>final. last (progressChan (streamingSession (fixtureConfig ''http://x/y'' 3 10 '''')
                        (fixturePools []) (fixtureWorld 200 5) ''test_1'' (roundRobin 3)))
                 = completeUpdate (fixtureConfig ''http://x/y'' 3 10 '''') ''test_1'' final
          \<and> ResultTotal final = 3 \<and> map ID (Requests final) = [1, 2, 3])"
proof -
  let ?c = "fixtureConfig ''http://x/y'' 3 10 ''''"
  have n: "1 \<le> TotalRequests ?c" and n3: "TotalRequests ?c = 3" "nat (TotalRequests ?c) = 3"
    by (simp_all add: fixtureConfig_fields)
  note t = completed_session_outcomes [OF n, of "fixturePools []" "fixtureWorld 200 5" "''test_1''"
      "roundRobin 3", unfolded n3(1) upto_1_3 nat_numeral]
  have r: "\<exists>res. RunTest ?c (fixturePools []) (fixtureWorld 200 5) ''test_1'' = Inr res
          \<and> ResultTotal res = 3 \<and> map ID (Requests res) = [1, 2, 3]"
    by (rule t [THEN conjunct1])
  have a: "Cancel \<notin> set (roundRobin 3)"
    by (rule t [THEN conjunct2, THEN conjunct2, THEN conjunct1])
  have b: "collector (streamingSession ?c (fixturePools []) (fixtureWorld 200 5) ''test_1''
                        (roundRobin 3)) = CollectorReturned"
    by (rule t [THEN conjunct2, THEN conjunct2, THEN conjunct2])
  obtain final where f:
    "last (progressChan (streamingSession ?c (fixturePools []) (fixtureWorld 200 5) ''test_1''
                           (roundRobin 3)))
       = completeUpdate ?c ''test_1'' final"
    "ResultTotal final = 3" "map ID (Requests final) = [1, 2, 3]"
    using t [THEN conjunct2, THEN conjunct1, rule_format, OF conjI [OF a b]] by (elim exE conjE)
  have e: "\<exists>final. last (progressChan (streamingSession ?c (fixturePools []) (fixtureWorld 200 5)
                                         ''test_1'' (roundRobin 3)))
                 = completeUpdate ?c ''test_1'' final
          \<and> ResultTotal final = 3 \<and> map ID (Requests final) = [1, 2, 3]"
    using f by (intro exI [of _ final] conjI)
  from n a b r e show ?thesis
    by (intro conjI)
qed

section \<open>Where the streaming path departs from the specification\<close>

lemma fixtureWorld_outcome:
  "ID (sendRequest i config pools (fixtureWorld code ms j)) = i"
  "Status (sendRequest i config pools (fixtureWorld code ms j)) = code"
  "WasBlocked (sendRequest i config pools (fixtureWorld code ms j)) \<longleftrightarrow> code \<in> {403, 406, 429}"
proof -
  have e: "newRequestError (fixtureWorld code ms j) = None"
    "transport (fixtureWorld code ms j)
       = Inr \<lparr>StatusCode = code, StatusCodeText = '''', Header = Map.empty, Body = Inr ''''\<rparr>"
    by (simp_all add: fixtureWorld_def fixtureEnv_def)
  show "ID (sendRequest i config pools (fixtureWorld code ms j)) = i"
    by (rule sendRequest_ID)
  show s: "Status (sendRequest i config pools (fixtureWorld code ms j)) = code"
    using sendRequest_status [OF e] by simp
  show "WasBlocked (sendRequest i config pools (fixtureWorld code ms j)) \<longleftrightarrow> code \<in> {403, 406, 429}"
    using s sendRequest_blocked_iff [of i config pools "fixtureWorld code ms j"] by simp
qed

lemma produced_1: "produced config pools world 1 = [sendRequest 1 config pools (world 1)]"
  by (simp add: produced_def upto_rec1)

text \<open>
  Claim C3 says that an outcome is blocked exactly when its status is 403, 406 or 429
  (\<open>sendRequest_blocked_iff\<close>, and \<open>sendRequest_transport_failure\<close> for status 0),
  and that the final result of a session records the first blocked outcome in
  \<open>RateLimitHit\<close> and \<open>RateLimitAt\<close>. \<open>RunTest\<close> does so (\<open>RunTest_result\<close>), but the
  streaming path does not: \<open>buildFinalResult\<close> and \<open>calculateStatistics\<close> never assign
  the two fields. In a streaming session of one request that is answered with 429 the
  only outcome is blocked and the final result says that no rate limit was hit, at
  request 0; \<open>RunTest\<close> on the same input reports the rate limit at request 1.
\<close>

theorem streaming_result_misses_rate_limit:
  "collector (streamingSession (fixtureConfig ''http://x/y'' 1 10 '''') (fixturePools [])
                (fixtureWorld 429 5) ''test_1'' (roundRobin 1)) = CollectorReturned
   \<and> map Status (allRequests (streamingSession (fixtureConfig ''http://x/y'' 1 10 '''')
                (fixturePools []) (fixtureWorld 429 5) ''test_1'' (roundRobin 1))) = [429]
   \<and> map WasBlocked (allRequests (streamingSession (fixtureConfig ''http://x/y'' 1 10 '''')
                (fixturePools []) (fixtureWorld 429 5) ''test_1'' (roundRobin 1))) = [True]
   \<and> map_option RateLimitHit (FinalResult (last (progressChan
         (streamingSession (fixtureConfig ''http://x/y'' 1 10 '''') (fixturePools [])
                (fixtureWorld 429 5) ''test_1'' (roundRobin 1))))) = Some False
   \<and> map_option RateLimitAt (FinalResult (last (progressChan
         (streamingSession (fixtureConfig ''http://x/y'' 1 10 '''') (fixturePools [])
                (fixtureWorld 429 5) ''test_1'' (roundRobin 1))))) = Some 0
   \<and> map_sum id RateLimitHit (RunTest (fixtureConfig ''http://x/y'' 1 10 '''') (fixturePools [])
                (fixtureWorld 429 5) ''test_1'') = Inr True
   \<and> map_sum id RateLimitAt (RunTest (fixtureConfig ''http://x/y'' 1 10 '''') (fixturePools [])
                (fixtureWorld 429 5) ''test_1'') = Inr 1"
proof -
  let ?c = "fixtureConfig ''http://x/y'' 1 10 ''''"
  let ?p = "fixturePools []"
  let ?w = "fixtureWorld 429 5"
  define s where "s = streamingSession ?c ?p ?w ''test_1'' (roundRobin 1)"
  have n: "1 \<le> TotalRequests ?c" and n1: "TotalRequests ?c = 1"
    by (simp_all add: fixtureConfig_def)
  have ret: "collector s = CollectorReturned"
    using roundRobin_completes [OF n, of ?p ?w "''test_1''"] unfolding s_def n1 by simp
  obtain final where f: "last (progressChan s) = completeUpdate ?c ''test_1'' final"
    "allRequests s = produced ?c ?p ?w (TotalRequests ?c)"
    "\<not> RateLimitHit final" "RateLimitAt final = 0"
    using streamingSession_complete [OF n roundRobin_no_cancel ret [unfolded s_def]]
    unfolding s_def [symmetric] by blast
  have all: "allRequests s = [sendRequest 1 ?c ?p (?w 1)]"
    using f(2) by (simp add: n1 produced_1)
  have fr: "FinalResult (last (progressChan s)) = Some final"
    unfolding f(1) by (simp add: completeUpdate_def)
  obtain res where r: "RunTest ?c ?p ?w ''test_1'' = Inr res"
    "Requests res = produced ?c ?p ?w (TotalRequests ?c)" "firstBlocked res"
    using RunTest_result [OF n, of ?p ?w "''test_1''"] by blast
  have rl: "RateLimitHit res \<and> RateLimitAt res = 1"
    using r(2,3) by (simp add: firstBlocked_def n1 produced_1 fixtureWorld_outcome)
  have c2: "map Status (allRequests s) = [429]"
    and c3: "map WasBlocked (allRequests s) = [True]"
    unfolding all by (simp_all add: fixtureWorld_outcome)
  have c4: "map_option RateLimitHit (FinalResult (last (progressChan s))) = Some False"
    and c5: "map_option RateLimitAt (FinalResult (last (progressChan s))) = Some 0"
    unfolding fr using f(3,4) by simp_all
  have c6: "map_sum id RateLimitHit (RunTest ?c ?p ?w ''test_1'') = Inr True"
    and c7: "map_sum id RateLimitAt (RunTest ?c ?p ?w ''test_1'') = Inr 1"
    unfolding r(1) using rl by simp_all
  from ret c2 c3 c4 c5 c6 c7 show ?thesis
    unfolding s_def by (intro conjI)
qed

text \<open>
  Claim C4 says that a session cancelled before all outcomes are processed ends with
  one \<open>cancelled\<close> update whose completed count is below the total, and never with a
  final result. The code checks the context only after it has received an outcome.
  With two requests, a cancellation that arrives while the producer waits between the
  first and the second request makes the producer return and close the channel; the
  collector leaves its loop and writes the \<open>complete\<close> update with a final result over
  the one outcome it has. With one request, a cancellation that arrives after the
  outcome is enqueued and before it is collected gives a \<open>cancelled\<close> update whose
  completed count equals the total.
\<close>

theorem cancelled_session_reports_complete:
  "ctxDone (streamingSession (fixtureConfig ''http://x/y'' 2 10 '''') (fixturePools [])
              (fixtureWorld 200 5) ''test_1''
              [Producer False, Producer False, Collector False, Cancel, Producer True,
               Collector False])
   \<and> TotalRequests (fixtureConfig ''http://x/y'' 2 10 '''') = 2
   \<and> completedCount (streamingSession (fixtureConfig ''http://x/y'' 2 10 '''') (fixturePools [])
              (fixtureWorld 200 5) ''test_1''
              [Producer False, Producer False, Collector False, Cancel, Producer True,
               Collector False]) = 1
   \<and> collector (streamingSession (fixtureConfig ''http://x/y'' 2 10 '''') (fixturePools [])
              (fixtureWorld 200 5) ''test_1''
              [Producer False, Producer False, Collector False, Cancel, Producer True,
               Collector False]) = CollectorReturned
   \<and> map Type (progressChan (streamingSession (fixtureConfig ''http://x/y'' 2 10 '''')
              (fixturePools []) (fixtureWorld 200 5) ''test_1''
              [Producer False, Producer False, Collector False, Cancel, Producer True,
               Collector False])) = [''progress'', ''complete'']
   \<and> map_option ResultTotal (FinalResult (last (progressChan
         (streamingSession (fixtureConfig ''http://x/y'' 2 10 '''') (fixturePools [])
              (fixtureWorld 200 5) ''test_1''
              [Producer False, Producer False, Collector False, Cancel, Producer True,
               Collector False])))) = Some 1
   \<and> map Type (progressChan (streamingSession (fixtureConfig ''http://x/y'' 1 10 '''')
              (fixturePools []) (fixtureWorld 200 5) ''test_1''
              [Producer False, Producer False, Cancel, Collector False]))
        = [''progress'', ''cancelled'']
   \<and> map Completed (progressChan (streamingSession (fixtureConfig ''http://x/y'' 1 10 '''')
              (fixturePools []) (fixtureWorld 200 5) ''test_1''
              [Producer False, Producer False, Cancel, Collector False])) = [0, 1]
   \<and> map Total (progressChan (streamingSession (fixtureConfig ''http://x/y'' 1 10 '''')
              (fixturePools []) (fixtureWorld 200 5) ''test_1''
              [Producer False, Producer False, Cancel, Collector False])) = [1, 1]"
proof -
  let ?c = "fixtureConfig ''http://x/y'' 2 10 ''''"
  let ?c1 = "fixtureConfig ''http://x/y'' 1 10 ''''"
  let ?p = "fixturePools []"
  let ?w = "fixtureWorld 200 5"
  let ?r = "sendRequest 1 ?c ?p (?w 1)"
  obtain final where f: "buildFinalResult ''test_1'' [?r] = Inr final"
    "ResultTotal final = int (length [?r])"
    using buildFinalResult_fields [of "[?r]" "''test_1''"] by auto
  have n: "TotalRequests ?c = 2" "TotalRequests ?c1 = 1" by (simp_all add: fixtureConfig_def)
  have ci: "calculateInterval ?c = Inr 5000" "calculateInterval ?c1 = Inr 10000"
    by (simp_all add: calculateInterval_def go_div_def go_quot_def go_mul_def go_wrap_def
        fixtureConfig_def)
  have s: "streamingSession ?c ?p ?w ''test_1''
        [Producer False, Producer False, Collector False, Cancel, Producer True, Collector False]
      = \<lparr>ctxDone = True, producer = ProducerReturned, resultsChan = [], resultsClosed = True,
         allRequests = [?r], batchRequests = [?r],
         completedCount = 1, collector = CollectorReturned,
         progressChan = [blankUpdate\<lparr>Type := ''progress'', UpdateTestID := ''test_1'',
                                            Completed := 0, Total := 2,
                                            Percentage := 0\<rparr>,
                         completeUpdate ?c ''test_1'' final]\<rparr>"
    using f(1)
    by (simp add: streamingSession_def RunTestStreaming_def ci n step_def producerStep_def
        producerReturn_def collectorStep_def collectorFinish_def completeUpdate_def
        resultsCap_def Let_def)
  have s1: "progressChan (streamingSession ?c1 ?p ?w ''test_1''
        [Producer False, Producer False, Cancel, Collector False])
      = [blankUpdate\<lparr>Type := ''progress'', UpdateTestID := ''test_1'',
                                            Completed := 0, Total := 1,
                                            Percentage := 0\<rparr>,
         blankUpdate\<lparr>Type := ''cancelled'', UpdateTestID := ''test_1'',
                                    Completed := 1, Total := 1\<rparr>]"
    by (simp add: streamingSession_def RunTestStreaming_def ci n step_def producerStep_def
        producerReturn_def collectorStep_def resultsCap_def Let_def)
  show ?thesis
    unfolding s s1 using f(2) n
    by (simp add: completeUpdate_def blankUpdate_def)
qed

end
